theory Spec2Isabelle
  imports
    Main
    "HOL-Library.AList"
    "HOL-Library.Sublist"
    "HOL-Library.Char_ord"
    "HOL-Library.List_Lexorder"
begin

section \<open>JavaScript values\<close>

text \<open>
  The program is a Node.js module, \<^verbatim>\<open>index.mjs\<close>, that asks a WebUntis server for the
  substitution plan of a school, filters its rows by class and prints them.  The
  repository holds two versions of it; the embedding follows the later one (the module
  with the exported \<^verbatim>\<open>getWebUntisTimetable(schoolConfig, options)\<close>), whose filter step,
  error test and \<^verbatim>\<open>renderTimetableConsole\<close> are line for line those of the earlier script.

  The values the program handles are the school configuration handed in by the caller
  and the JSON document decoded from the HTTP response.  They are embedded as one
  datatype of JavaScript values.  A number is an integer or \<^verbatim>\<open>NaN\<close> (numbers with a
  fraction are outside the model); a string is a list of characters; an object is the
  list of its own properties in insertion order, read with \<open>map_of\<close>.  An exception is a
  value of \<open>js_error\<close>, and a computation that may throw returns a sum.
\<close>

datatype jsval =
    JUndefined
  | JNull
  | JBool bool
  | JNaN
  | JNum int
  | JStr string
  | JArr "jsval list"
  | JObj "(string \<times> jsval) list"

datatype js_error =
    TypeError
  | SyntaxError
  | FetchError string "string option"
  | HttpError nat string
  | ApiError jsval

text \<open>
  \<open>TypeError\<close>: a property read on \<^verbatim>\<open>null\<close>/\<^verbatim>\<open>undefined\<close>, or a call of something
  that is not a function.  \<open>SyntaxError\<close>: \<^verbatim>\<open>response.json()\<close> rejected.
  \<open>FetchError msg cause\<close>: \<^verbatim>\<open>fetch\<close> rejected.
  \<open>HttpError status text\<close> is \<^verbatim>\<open>new Error(`HTTP Error: ${response.status} - ${errorText}`)\<close>
  and \<open>ApiError m\<close> is \<^verbatim>\<open>new Error(`WebUntis API Fehler: ${data.error.message}`)\<close>.
\<close>

fun truthy :: "jsval \<Rightarrow> bool" where
  "truthy JUndefined = False"
| "truthy JNull = False"
| "truthy (JBool b) = b"
| "truthy JNaN = False"
| "truthy (JNum n) = (n \<noteq> 0)"
| "truthy (JStr s) = (s \<noteq> [])"
| "truthy (JArr xs) = True"
| "truthy (JObj kvs) = True"

subsection \<open>Numbers as strings\<close>

definition digit_char :: "nat \<Rightarrow> char" where
  "digit_char n = ''0123456789'' ! n"

fun nat_digits :: "nat \<Rightarrow> string" where
  "nat_digits n =
     (if n < 10 then [digit_char n] else nat_digits (n div 10) @ [digit_char (n mod 10)])"

declare nat_digits.simps [simp del]

definition int_to_string :: "int \<Rightarrow> string" where
  "int_to_string n = (if n < 0 then CHR ''-'' # nat_digits (nat (- n)) else nat_digits (nat n))"

text \<open>\<^verbatim>\<open>String(x)\<close> and \<^verbatim>\<open>`${x}`\<close> for a number \<open>x\<close>; \<open>None\<close> is \<^verbatim>\<open>NaN\<close>.\<close>

definition num_to_string :: "int option \<Rightarrow> string" where
  "num_to_string x = (case x of None \<Rightarrow> ''NaN'' | Some n \<Rightarrow> int_to_string n)"

definition join_comma :: "string list \<Rightarrow> string" where
  "join_comma ss = (case ss of [] \<Rightarrow> [] | s # rest \<Rightarrow> foldl (\<lambda>acc t. acc @ '','' @ t) s rest)"

text \<open>\<^verbatim>\<open>ToString\<close>, which also turns a value into a property key.\<close>

fun js_to_string :: "jsval \<Rightarrow> string" where
  "js_to_string JUndefined = ''undefined''"
| "js_to_string JNull = ''null''"
| "js_to_string (JBool b) = (if b then ''true'' else ''false'')"
| "js_to_string JNaN = ''NaN''"
| "js_to_string (JNum n) = int_to_string n"
| "js_to_string (JStr s) = s"
| "js_to_string (JArr xs) =
     join_comma (map (\<lambda>x. if x = JNull \<or> x = JUndefined then [] else js_to_string x) xs)"
| "js_to_string (JObj kvs) = ''[object Object]''"

subsection \<open>Property access\<close>

text \<open>
  \<open>js_prop v k\<close> is \<^verbatim>\<open>v[k]\<close> for a value \<open>v\<close> other than \<^verbatim>\<open>null\<close> and \<^verbatim>\<open>undefined\<close>: an own
  property of an object, an element of an array or a character of a string by its index,
  the \<^verbatim>\<open>length\<close> of either, and \<^verbatim>\<open>undefined\<close> otherwise.  The names the program reads
  (\<^verbatim>\<open>error\<close>, \<^verbatim>\<open>payload\<close>, \<^verbatim>\<open>rows\<close>, \<^verbatim>\<open>group\<close>, ...) are not names of built-in methods.
\<close>

definition index_of_key :: "string \<Rightarrow> nat \<Rightarrow> nat option" where
  "index_of_key k n = find (\<lambda>i. nat_digits i = k) [0..<n]"

fun js_prop :: "jsval \<Rightarrow> string \<Rightarrow> jsval" where
  "js_prop (JObj kvs) k = (case map_of kvs k of None \<Rightarrow> JUndefined | Some v \<Rightarrow> v)"
| "js_prop (JArr xs) k =
     (case index_of_key k (length xs) of
        Some i \<Rightarrow> xs ! i
      | None \<Rightarrow> if k = ''length'' then JNum (int (length xs)) else JUndefined)"
| "js_prop (JStr s) k =
     (case index_of_key k (length s) of
        Some i \<Rightarrow> JStr [s ! i]
      | None \<Rightarrow> if k = ''length'' then JNum (int (length s)) else JUndefined)"
| "js_prop v k = JUndefined"

definition js_get :: "jsval \<Rightarrow> string \<Rightarrow> js_error + jsval" where
  "js_get v k = (if v = JNull \<or> v = JUndefined then Inl TypeError else Inr (js_prop v k))"

text \<open>The own enumerable properties that an object spread \<^verbatim>\<open>{...v}\<close> copies.\<close>

fun own_props :: "jsval \<Rightarrow> (string \<times> jsval) list" where
  "own_props (JObj kvs) = kvs"
| "own_props (JArr xs) = map (\<lambda>i. (nat_digits i, xs ! i)) [0..<length xs]"
| "own_props (JStr s) = map (\<lambda>i. (nat_digits i, JStr [s ! i])) [0..<length s]"
| "own_props v = []"

section \<open>The filter step of \<^verbatim>\<open>getWebUntisTimetable\<close>\<close>

text \<open>
  \<^verbatim>\<open>
  let filteredRows = data.payload.rows;
  if (filterGroups && filterGroups.length > 0) {
      filteredRows = data.payload.rows.filter(row => filterGroups.includes(row.group));
  }
  \<close>
  \<open>filterGroups\<close> is a \<^verbatim>\<open>string[]\<close>, or absent (\<open>None\<close>).  \<^verbatim>\<open>includes\<close> compares with
  \<^verbatim>\<open>SameValueZero\<close>: a group matches when it is a string equal to an entry.
\<close>

definition includes_group :: "string list \<Rightarrow> jsval \<Rightarrow> bool" where
  "includes_group gs g = (case g of JStr s \<Rightarrow> s \<in> set gs | _ \<Rightarrow> False)"

fun filter_callback_loop :: "string list \<Rightarrow> jsval list \<Rightarrow> js_error + jsval list" where
  "filter_callback_loop gs [] = Inr []"
| "filter_callback_loop gs (row # rest) =
     (case js_get row ''group'' of
        Inl e \<Rightarrow> Inl e
      | Inr g \<Rightarrow>
          (case filter_callback_loop gs rest of
             Inl e \<Rightarrow> Inl e
           | Inr kept \<Rightarrow> Inr (if includes_group gs g then row # kept else kept)))"

definition filterRows :: "jsval \<Rightarrow> string list option \<Rightarrow> js_error + jsval" where
  "filterRows rows filterGroups =
     (case filterGroups of
        None \<Rightarrow> Inr rows
      | Some gs \<Rightarrow>
          if gs = [] then Inr rows
          else (case rows of
                  JArr rs \<Rightarrow> map_sum id JArr (filter_callback_loop gs rs)
                | _ \<Rightarrow> Inl TypeError))"

definition is_object :: "jsval \<Rightarrow> bool" where
  "is_object v = (case v of JObj kvs \<Rightarrow> True | _ \<Rightarrow> False)"


section \<open>Dates\<close>

text \<open>
  A \<^verbatim>\<open>Date\<close> object holds a time value: milliseconds since the epoch, or \<^verbatim>\<open>NaN\<close>
  (\<open>None\<close>, an invalid date).  The functions below are the abstract operations of the
  ECMAScript specification (section "Date Objects") that \<^verbatim>\<open>getFullYear\<close>, \<^verbatim>\<open>getMonth\<close>,
  \<^verbatim>\<open>getDate\<close> and \<^verbatim>\<open>setDate\<close> are defined by.  The program reads local calendar fields;
  the host's time zone is fixed to UTC here, so local time and time value coincide.
\<close>

type_synonym jsdate = "int option"

definition msPerDay :: int where
  "msPerDay = 86400000"

definition Day :: "int \<Rightarrow> int" where
  "Day t = t div msPerDay"

definition TimeWithinDay :: "int \<Rightarrow> int" where
  "TimeWithinDay t = t mod msPerDay"

definition DaysInYear :: "int \<Rightarrow> int" where
  "DaysInYear y =
     (if y mod 4 \<noteq> 0 then 365 else if y mod 100 \<noteq> 0 then 366
      else if y mod 400 \<noteq> 0 then 365 else 366)"

definition DayFromYear :: "int \<Rightarrow> int" where
  "DayFromYear y =
     365 * (y - 1970) + (y - 1969) div 4 - (y - 1901) div 100 + (y - 1601) div 400"

text \<open>
  The specification defines the year of a day as the largest \<open>y\<close> with
  \<open>DayFromYear y \<le> day\<close>; \<open>YearFromDay\<close> computes it from an estimate that is off by at most
  one (lemma \<open>YearFromDay_bounds\<close> below).
\<close>

definition YearFromDay :: "int \<Rightarrow> int" where
  "YearFromDay d =
     (let y = 1970 + (400 * d) div 146097
      in if d < DayFromYear y then y - 1
         else if DayFromYear (y + 1) \<le> d then y + 1
         else y)"

definition YearFromTime :: "int \<Rightarrow> int" where
  "YearFromTime t = YearFromDay (Day t)"

definition InLeapYear :: "int \<Rightarrow> int" where
  "InLeapYear t = (if DaysInYear (YearFromTime t) = 366 then 1 else 0)"

definition DayWithinYear :: "int \<Rightarrow> int" where
  "DayWithinYear t = Day t - DayFromYear (YearFromTime t)"

definition MonthFromTime :: "int \<Rightarrow> int" where
  "MonthFromTime t =
     (let d = DayWithinYear t; l = InLeapYear t
      in if d < 31 then 0
         else if d < 59 + l then 1
         else if d < 90 + l then 2
         else if d < 120 + l then 3
         else if d < 151 + l then 4
         else if d < 181 + l then 5
         else if d < 212 + l then 6
         else if d < 243 + l then 7
         else if d < 273 + l then 8
         else if d < 304 + l then 9
         else if d < 334 + l then 10
         else 11)"

definition DateFromTime :: "int \<Rightarrow> int" where
  "DateFromTime t =
     (let d = DayWithinYear t; l = InLeapYear t; m = MonthFromTime t
      in if m = 0 then d + 1
         else if m = 1 then d - 30
         else if m = 2 then d - 58 - l
         else if m = 3 then d - 89 - l
         else if m = 4 then d - 119 - l
         else if m = 5 then d - 150 - l
         else if m = 6 then d - 180 - l
         else if m = 7 then d - 211 - l
         else if m = 8 then d - 242 - l
         else if m = 9 then d - 272 - l
         else if m = 10 then d - 303 - l
         else d - 333 - l)"

text \<open>The number of days of year \<open>y\<close> that precede its month \<open>mn\<close> (0 to 11).\<close>

definition DaysBeforeMonth :: "int \<Rightarrow> int \<Rightarrow> int" where
  "DaysBeforeMonth y mn =
     (let l = (if DaysInYear y = 366 then 1 else 0)
      in if mn = 0 then 0
         else if mn = 1 then 31
         else if mn = 2 then 59 + l
         else if mn = 3 then 90 + l
         else if mn = 4 then 120 + l
         else if mn = 5 then 151 + l
         else if mn = 6 then 181 + l
         else if mn = 7 then 212 + l
         else if mn = 8 then 243 + l
         else if mn = 9 then 273 + l
         else if mn = 10 then 304 + l
         else 334 + l)"

text \<open>
  \<open>MakeDay year month date\<close>: the day number of the first day of the month, found from
  year and month, plus \<open>date - 1\<close>.
\<close>

definition MakeDay :: "int \<Rightarrow> int \<Rightarrow> int \<Rightarrow> int" where
  "MakeDay year month date =
     (let ym = year + month div 12; mn = month mod 12
      in DayFromYear ym + DaysBeforeMonth ym mn + date - 1)"

definition MakeDate :: "int \<Rightarrow> int \<Rightarrow> int" where
  "MakeDate day time = day * msPerDay + time"

definition TimeClip :: "int \<Rightarrow> jsdate" where
  "TimeClip t = (if \<bar>t\<bar> > 8640000000000000 then None else Some t)"

definition getFullYear :: "jsdate \<Rightarrow> int option" where
  "getFullYear d = map_option YearFromTime d"

definition getMonth :: "jsdate \<Rightarrow> int option" where
  "getMonth d = map_option MonthFromTime d"

definition getDate :: "jsdate \<Rightarrow> int option" where
  "getDate d = map_option DateFromTime d"

definition setDate :: "jsdate \<Rightarrow> int option \<Rightarrow> jsdate" where
  "setDate d date =
     (case d of
        None \<Rightarrow> None
      | Some t \<Rightarrow>
          (case date of
             None \<Rightarrow> None
           | Some dt \<Rightarrow>
               TimeClip (MakeDate (MakeDay (YearFromTime t) (MonthFromTime t) dt)
                                  (TimeWithinDay t))))"

text \<open>\<^verbatim>\<open>new Date(year, monthIndex, day)\<close>, at midnight.\<close>

definition new_Date :: "int \<Rightarrow> int \<Rightarrow> int \<Rightarrow> jsdate" where
  "new_Date year monthIndex day =
     (let yr = (if 0 \<le> year \<and> year \<le> 99 then 1900 + year else year)
      in TimeClip (MakeDate (MakeDay yr monthIndex day) 0))"

subsection \<open>\<^verbatim>\<open>getUntisDate\<close>\<close>

definition padStart2 :: "string \<Rightarrow> string" where
  "padStart2 s = (if length s < 2 then replicate (2 - length s) CHR ''0'' @ s else s)"

definition is_digit :: "char \<Rightarrow> bool" where
  "is_digit c = (c \<in> set ''0123456789'')"

text \<open>The position of a value in a list (its length when it does not occur).\<close>

fun position :: "'a list \<Rightarrow> 'a \<Rightarrow> nat" where
  "position [] x = 0"
| "position (y # ys) x = (if x = y then 0 else Suc (position ys x))"

definition digit_val :: "char \<Rightarrow> nat" where
  "digit_val c = position ''0123456789'' c"

definition digits_value :: "string \<Rightarrow> nat" where
  "digits_value ds = foldl (\<lambda>acc c. 10 * acc + digit_val c) 0 ds"

definition is_space :: "char \<Rightarrow> bool" where
  "is_space c = (c \<in> set [CHR 0x09, CHR 0x0A, CHR 0x0B, CHR 0x0C, CHR 0x0D, CHR '' ''])"

text \<open>
  \<^verbatim>\<open>parseInt(s, 10)\<close>: leading white space is skipped, a sign is read, then the longest
  run of decimal digits; no digit gives \<^verbatim>\<open>NaN\<close>.
\<close>

definition parseInt10 :: "string \<Rightarrow> int option" where
  "parseInt10 s =
     (let s1 = dropWhile is_space s;
          neg = (s1 \<noteq> [] \<and> hd s1 = CHR ''-'');
          s2 = (if s1 \<noteq> [] \<and> (hd s1 = CHR ''-'' \<or> hd s1 = CHR ''+'') then tl s1 else s1);
          ds = takeWhile is_digit s2
      in if ds = [] then None
         else Some (if neg then - int (digits_value ds) else int (digits_value ds)))"

text \<open>
  \<^verbatim>\<open>
  function getUntisDate(dateObject = new Date()) {
      const year = dateObject.getFullYear();
      const month = String(dateObject.getMonth() + 1).padStart(2, '0');
      const day = String(dateObject.getDate()).padStart(2, '0');
      return parseInt(`${year}${month}${day}`, 10);
  }
  \<close>
\<close>

definition getUntisDate :: "jsdate \<Rightarrow> int option" where
  "getUntisDate dateObject =
     (let year = getFullYear dateObject;
          month = padStart2 (num_to_string (map_option (\<lambda>m. m + 1) (getMonth dateObject)));
          day = padStart2 (num_to_string (getDate dateObject))
      in parseInt10 (num_to_string year @ month @ day))"

text \<open>
  \<^verbatim>\<open>
  const queryDate = new Date(targetDate);
  queryDate.setDate(queryDate.getDate() + dateOffset);
  \<close>
\<close>

definition queryDate :: "jsdate \<Rightarrow> int \<Rightarrow> jsdate" where
  "queryDate targetDate dateOffset =
     setDate targetDate (map_option (\<lambda>d. d + dateOffset) (getDate targetDate))"


section \<open>The retrieval call\<close>

subsection \<open>Caller input, network and console\<close>

text \<open>
  The options object of \<^verbatim>\<open>getWebUntisTimetable\<close> (\<^verbatim>\<open>TimetableQueryOptions\<close>); a field that
  is \<open>None\<close> is absent and takes its default in the destructuring.
\<close>

record options =
  opt_targetDate :: "jsdate option"
  opt_dateOffset :: "int option"
  opt_numberOfDays :: "int option"
  opt_filterGroups :: "string list option"

record request =
  req_url :: string
  req_method :: string
  req_headers :: "(string \<times> string) list"
  req_body :: jsval

text \<open>
  A response: its status, its body as \<^verbatim>\<open>response.text()\<close> gives it, and what
  \<^verbatim>\<open>response.json()\<close> decodes it to (\<open>None\<close> when the body is not JSON).
\<close>

record response =
  status :: nat
  body_text :: string
  body_json :: "jsval option"

definition ok :: "response \<Rightarrow> bool" where
  "ok r = (200 \<le> status r \<and> status r \<le> 299)"

datatype fetch_outcome =
    Rejected string "string option"
  | Responded response

text \<open>What the call finds outside itself: the clock and the network.\<close>

record env =
  now :: jsdate
  fetch :: "request \<Rightarrow> fetch_outcome"

text \<open>
  The lines written with \<^verbatim>\<open>console.error\<close>, each with the values it prints (the
  \<^verbatim>\<open>console.log\<close> lines, which report progress, are not part of the model):
  \<^item> \<open>LogInvalidConfig\<close>: the line reporting an invalid school configuration;
  \<^item> \<open>LogHttpStatus s\<close>: \<^verbatim>\<open>`HTTP-Fehler! Status: ${response.status}`\<close>;
  \<^item> \<open>LogHttpDetails t\<close>: \<^verbatim>\<open>`Fehlerdetails: ${errorText}`\<close>;
  \<^item> \<open>LogApiError m c\<close>:
    \<^verbatim>\<open>`WebUntis API Fehler: ${data.error.message} (Code: ${data.error.code})`\<close>;
  \<^item> \<open>LogCaught e\<close>: \<^verbatim>\<open>"Ein Fehler ist aufgetreten:", error.message\<close>;
  \<^item> \<open>LogCause c\<close>: the line printing \<^verbatim>\<open>error.cause\<close>.
\<close>

datatype log_line =
    LogInvalidConfig
  | LogHttpStatus nat
  | LogHttpDetails string
  | LogApiError jsval jsval
  | LogCaught js_error
  | LogCause string

text \<open>
  The state a call can touch: the module's constant \<^verbatim>\<open>BASE_MONITOR_PAYLOAD_TEMPLATE\<close>,
  the error console and the requests sent so far.
\<close>

record world =
  template :: "(string \<times> jsval) list"
  stderr :: "log_line list"
  sent :: "request list"

definition BASE_MONITOR_PAYLOAD_TEMPLATE :: "(string \<times> jsval) list" where
  "BASE_MONITOR_PAYLOAD_TEMPLATE =
     [(''strikethrough'', JBool True),
      (''mergeBlocks'', JBool True),
      (''showOnlyFutureSub'', JBool False),
      (''showBreakSupervisions'', JBool True),
      (''showTeacher'', JBool True),
      (''showClass'', JBool False),
      (''showHour'', JBool True),
      (''showInfo'', JBool True),
      (''showRoom'', JBool True),
      (''showSubject'', JBool True),
      (''groupBy'', JNum 1),
      (''hideAbsent'', JBool True),
      (''departmentElementType'', JNum 1),
      (''hideCancelWithSubstitution'', JBool True),
      (''hideCancelCausedByEvent'', JBool False),
      (''showTime'', JBool False),
      (''showSubstText'', JBool True),
      (''showAbsentElements'', JArr [JNum 2]),
      (''showAffectedElements'', JArr []),
      (''showUnitTime'', JBool True),
      (''showMessages'', JBool True),
      (''showStudentgroup'', JBool False),
      (''enableSubstitutionFrom'', JBool False),
      (''showSubstitutionFrom'', JNum 0),
      (''showTeacherOnEvent'', JBool False),
      (''showAbsentTeacher'', JBool False),
      (''strikethroughAbsentTeacher'', JBool True),
      (''activityTypeIds'', JArr []),
      (''showEvent'', JBool True),
      (''showCancel'', JBool True),
      (''showOnlyCancel'', JBool False),
      (''showSubstTypeColor'', JBool False),
      (''showExamSupervision'', JBool False),
      (''showUnheraldedExams'', JBool False)]"

definition initial_world :: world where
  "initial_world = \<lparr>template = BASE_MONITOR_PAYLOAD_TEMPLATE, stderr = [], sent = []\<rparr>"

subsection \<open>Building the request\<close>

definition API_BASE_URL :: string where
  "API_BASE_URL = ''https://nessa.webuntis.com''"

definition CONTEXT_PATH :: string where
  "CONTEXT_PATH = ''/WebUntis''"

definition ENDPOINT :: string where
  "ENDPOINT = ''monitor/substitution/data''"

definition uri_unreserved :: "char \<Rightarrow> bool" where
  "uri_unreserved c =
     (c \<in> set (''ABCDEFGHIJKLMNOPQRSTUVWXYZabcdefghijklmnopqrstuvwxyz0123456789-_.!~*()''
                @ [CHR 0x27]))"

definition hex_digit :: "nat \<Rightarrow> char" where
  "hex_digit n = ''0123456789ABCDEF'' ! n"

text \<open>\<^verbatim>\<open>encodeURIComponent\<close> on a string given by its UTF-8 bytes.\<close>

definition encodeURIComponent :: "string \<Rightarrow> string" where
  "encodeURIComponent s =
     concat (map (\<lambda>c. if uri_unreserved c then [c]
                       else [CHR ''%'', hex_digit (of_char c div 16), hex_digit (of_char c mod 16)])
                 s)"

definition number_val :: "int option \<Rightarrow> jsval" where
  "number_val x = (case x of None \<Rightarrow> JNaN | Some n \<Rightarrow> JNum n)"

text \<open>
  \<^verbatim>\<open>Array.isArray\<close>, and the validation of the school configuration:
  \<^verbatim>\<open>
  if (!schoolConfig || !schoolConfig.schoolName || !schoolConfig.formatName
      || !Array.isArray(schoolConfig.departmentIds)) { ... return null; }
  \<close>
\<close>

definition isArray :: "jsval \<Rightarrow> bool" where
  "isArray v = (case v of JArr xs \<Rightarrow> True | _ \<Rightarrow> False)"

definition invalid_config :: "jsval \<Rightarrow> bool" where
  "invalid_config schoolConfig =
     (\<not> truthy schoolConfig \<or> \<not> truthy (js_prop schoolConfig ''schoolName'')
      \<or> \<not> truthy (js_prop schoolConfig ''formatName'')
      \<or> \<not> isArray (js_prop schoolConfig ''departmentIds''))"

text \<open>
  \<^verbatim>\<open>
  const payload = {
      ...BASE_MONITOR_PAYLOAD_TEMPLATE,
      "schoolName": schoolConfig.schoolName,
      "formatName": schoolConfig.formatName,
      "departmentIds": schoolConfig.departmentIds,
      date: untisDate,
      dateOffset: dateOffset,
      numberOfDays: numberOfDays
  };
  \<close>
  A later property of an object literal replaces an earlier one of the same name, which
  \<open>AList.update\<close> does.
\<close>

definition build_payload :: "(string \<times> jsval) list \<Rightarrow> jsval \<Rightarrow> int option \<Rightarrow> int \<Rightarrow> int \<Rightarrow> jsval" where
  "build_payload tmpl schoolConfig untisDate dateOffset numberOfDays =
     JObj (AList.update ''numberOfDays'' (JNum numberOfDays)
          (AList.update ''dateOffset'' (JNum dateOffset)
          (AList.update ''date'' (number_val untisDate)
          (AList.update ''departmentIds'' (js_prop schoolConfig ''departmentIds'')
          (AList.update ''formatName'' (js_prop schoolConfig ''formatName'')
          (AList.update ''schoolName'' (js_prop schoolConfig ''schoolName'') tmpl))))))"

definition requestUrl :: "jsval \<Rightarrow> string" where
  "requestUrl schoolConfig =
     API_BASE_URL @ CONTEXT_PATH @ ''/'' @ ENDPOINT @ ''?school=''
       @ encodeURIComponent (js_to_string (js_prop schoolConfig ''schoolName''))"

definition build_request :: "env \<Rightarrow> world \<Rightarrow> jsval \<Rightarrow> options \<Rightarrow> request" where
  "build_request e w schoolConfig opts =
     (let target = (case opt_targetDate opts of None \<Rightarrow> now e | Some d \<Rightarrow> d);
          offset = (case opt_dateOffset opts of None \<Rightarrow> 0 | Some k \<Rightarrow> k);
          days = (case opt_numberOfDays opts of None \<Rightarrow> 1 | Some n \<Rightarrow> n);
          untisDate = getUntisDate (queryDate target offset)
      in \<lparr>req_url = requestUrl schoolConfig,
          req_method = ''POST'',
          req_headers = [(''Content-Type'', ''application/json''), (''Accept'', ''*/*''),
                         (''X-Requested-With'', ''XMLHttpRequest'')],
          req_body = build_payload (template w) schoolConfig untisDate offset days\<rparr>)"

subsection \<open>The \<^verbatim>\<open>try\<close> block and the \<^verbatim>\<open>catch\<close> block\<close>

text \<open>
  \<^verbatim>\<open>
  const processedPayload = {
      ...data.payload,
      rows: filteredRows,
      absentElements: data.payload.absentElements
  };
  \<close>
  preceded by the filter step; reading \<^verbatim>\<open>data.payload.rows\<close> throws when there is no payload.
\<close>

definition process_payload :: "string list option \<Rightarrow> jsval \<Rightarrow> js_error + jsval" where
  "process_payload fg data =
     (case js_get (js_prop data ''payload'') ''rows'' of
        Inl e \<Rightarrow> Inl e
      | Inr rows \<Rightarrow>
          (case filterRows rows fg of
             Inl e \<Rightarrow> Inl e
           | Inr filteredRows \<Rightarrow>
               Inr (JObj (AList.update ''absentElements''
                            (js_prop (js_prop data ''payload'') ''absentElements'')
                         (AList.update ''rows'' filteredRows
                            (own_props (js_prop data ''payload'')))))))"

text \<open>
  From \<^verbatim>\<open>if (data.error)\<close> to the \<^verbatim>\<open>return\<close>: the result or the error thrown, and the
  console lines written on the way.
\<close>

definition handle_data :: "string list option \<Rightarrow> jsval \<Rightarrow> (js_error + jsval) \<times> log_line list" where
  "handle_data fg data =
     (case js_get data ''error'' of
        Inl e \<Rightarrow> (Inl e, [])
      | Inr err \<Rightarrow>
          if truthy err
          then (Inl (ApiError (js_prop err ''message'')),
                [LogApiError (js_prop err ''message'') (js_prop err ''code'')])
          else (process_payload fg data, []))"

definition try_block :: "env \<Rightarrow> request \<Rightarrow> string list option \<Rightarrow> (js_error + jsval) \<times> log_line list" where
  "try_block e req fg =
     (case fetch e req of
        Rejected msg cause \<Rightarrow> (Inl (FetchError msg cause), [])
      | Responded resp \<Rightarrow>
          if \<not> ok resp
          then (Inl (HttpError (status resp) (body_text resp)),
                [LogHttpStatus (status resp), LogHttpDetails (body_text resp)])
          else (case body_json resp of
                  None \<Rightarrow> (Inl SyntaxError, [])
                | Some data \<Rightarrow> handle_data fg data))"

definition catch_block :: "js_error \<Rightarrow> log_line list" where
  "catch_block err =
     LogCaught err # (case err of FetchError msg (Some c) \<Rightarrow> [LogCause c] | _ \<Rightarrow> [])"

text \<open>
  The call: the value it returns (\<^verbatim>\<open>null\<close> on failure) and the state it leaves.
\<close>

definition getWebUntisTimetable :: "env \<Rightarrow> jsval \<Rightarrow> options \<Rightarrow> world \<Rightarrow> jsval \<times> world" where
  "getWebUntisTimetable e schoolConfig opts w =
     (if invalid_config schoolConfig
      then (JNull, w\<lparr>stderr := stderr w @ [LogInvalidConfig]\<rparr>)
      else
        let req = build_request e w schoolConfig opts;
            w1 = w\<lparr>sent := sent w @ [req]\<rparr>
        in (case try_block e req (opt_filterGroups opts) of
              (Inr v, ls) \<Rightarrow> (v, w1\<lparr>stderr := stderr w1 @ ls\<rparr>)
            | (Inl err, ls) \<Rightarrow> (JNull, w1\<lparr>stderr := stderr w1 @ ls @ catch_block err\<rparr>)))"

section \<open>\<^verbatim>\<open>renderTimetableConsole\<close>\<close>

subsection \<open>Grouping\<close>

text \<open>
  \<^verbatim>\<open>
  const groupedTimetable = payloadData.rows.reduce((acc, row) => {
      const groupName = row.group || 'Unbekannte Gruppe';
      if (!acc[groupName]) { acc[groupName] = []; }
      acc[groupName].push(row);
      return acc;
  }, {});
  const sortedGroupNames = Object.keys(groupedTimetable).sort();
  \<close>
  The accumulator is an ordinary object: \<^verbatim>\<open>acc[groupName]\<close> finds the bucket, or else a
  property inherited from \<^verbatim>\<open>Object.prototype\<close>, whose names are listed below.  Each of
  those is a function or an object, so it is truthy and has no \<^verbatim>\<open>push\<close>.
\<close>

definition Object_prototype_keys :: "string list" where
  "Object_prototype_keys =
     [''constructor'', ''__defineGetter__'', ''__defineSetter__'', ''hasOwnProperty'',
      ''__lookupGetter__'', ''__lookupSetter__'', ''isPrototypeOf'', ''propertyIsEnumerable'',
      ''toString'', ''valueOf'', ''__proto__'', ''toLocaleString'']"

definition groupName_of :: "jsval \<Rightarrow> string" where
  "groupName_of row =
     js_to_string (if truthy (js_prop row ''group'') then js_prop row ''group''
                   else JStr ''Unbekannte Gruppe'')"

fun reduce_rows :: "(string \<times> jsval list) list \<Rightarrow> jsval list \<Rightarrow> js_error + (string \<times> jsval list) list" where
  "reduce_rows acc [] = Inr acc"
| "reduce_rows acc (row # rest) =
     (if row = JNull \<or> row = JUndefined then Inl TypeError
      else (case map_of acc (groupName_of row) of
              Some bucket \<Rightarrow>
                reduce_rows (AList.update (groupName_of row) (bucket @ [row]) acc) rest
            | None \<Rightarrow>
                if groupName_of row \<in> set Object_prototype_keys then Inl TypeError
                else reduce_rows (AList.update (groupName_of row) [row] acc) rest))"

definition bucket_of :: "(string \<times> jsval list) list \<Rightarrow> string \<Rightarrow> jsval list" where
  "bucket_of acc k = (case map_of acc k of None \<Rightarrow> [] | Some rs \<Rightarrow> rs)"

text \<open>
  The buckets in the order in which \<^verbatim>\<open>sortedGroupNames.forEach\<close> visits them.  The
  default \<^verbatim>\<open>sort()\<close> compares strings by their code units.
\<close>

definition groupByClass :: "jsval list \<Rightarrow> js_error + (string \<times> jsval list) list" where
  "groupByClass rows =
     (case reduce_rows [] rows of
        Inl e \<Rightarrow> Inl e
      | Inr acc \<Rightarrow> Inr (map (\<lambda>k. (k, bucket_of acc k)) (sort (map fst acc))))"

subsection \<open>One row\<close>

text \<open>\<^verbatim>\<open>info.replace(/<[^>]*>/g, '')\<close>: every match, found from left to right, is removed.\<close>

function strip_tags :: "string \<Rightarrow> string" where
  "strip_tags [] = []"
| "strip_tags (c # cs) =
     (if c = CHR ''<'' \<and> CHR ''>'' \<in> set cs
      then strip_tags (tl (dropWhile (\<lambda>x. x \<noteq> CHR ''>'') cs))
      else c # strip_tags cs)"
  by pat_completeness auto

termination
proof (relation "measure length")
  fix c :: char and cs :: string
  have "length (tl (dropWhile (\<lambda>x. x \<noteq> CHR ''>'') cs)) \<le> length cs"
    using length_dropWhile_le [of "\<lambda>x. x \<noteq> CHR ''>''" cs] by simp
  then show "(tl (dropWhile (\<lambda>x. x \<noteq> CHR ''>'') cs), c # cs) \<in> measure length"
    by simp
qed simp_all






text \<open>
  The body of the loop over the rows of a group:
  \<^verbatim>\<open>
  const [stunde, fach, raum, lehrer, info] = row.data;
  const cleanInfo = info ? info.replace(/<[^>]*>/g, '') : '';
  let rowString = `  ${stunde || 'N/A'} | ${fach || 'N/A'} | ${raum || 'N/A'} | ${lehrer || 'N/A'}`;
  if (cleanInfo) rowString += ` | Info: ${cleanInfo}`;
  if (row.cellClasses && row.cellClasses['1'] && row.cellClasses['1'].includes('cancelStyle')) {
      rowString += <the cancellation mark>;
  }
  console.log(rowString);
  \<close>
  \<open>derivePresentation\<close> computes what the line is made of: the four columns with their
  \<^verbatim>\<open>'N/A'\<close> fallback, the cleaned info text and whether the cancellation mark is
  appended; \<open>rowString\<close> is the line.
\<close>

record presentation =
  stunde :: string
  fach :: string
  raum :: string
  lehrer :: string
  cleanedInfo :: string
  cancelled :: bool


definition rowString :: "presentation \<Rightarrow> string" where
  "rowString p =
     ''  '' @ stunde p @ '' | '' @ fach p @ '' | '' @ raum p @ '' | '' @ lehrer p
       @ (if cleanedInfo p \<noteq> [] then '' | Info: '' @ cleanedInfo p else [])
       @ (if cancelled p then '' (ENTF'' @ [CHR 0xC3, CHR 0x84] @ ''LLT)'' else [])"

section \<open>Example inputs\<close>

text \<open>A school configuration, empty options and a network that answers every request alike.\<close>

definition example_config :: jsval where
  "example_config =
     JObj [(''schoolName'', JStr ''Test School''), (''formatName'', JStr ''Fmt''),
           (''departmentIds'', JArr [JNum 1])]"

definition no_options :: options where
  "no_options =
     \<lparr>opt_targetDate = None, opt_dateOffset = None, opt_numberOfDays = None,
      opt_filterGroups = None\<rparr>"

definition answering :: "fetch_outcome \<Rightarrow> env" where
  "answering outcome = \<lparr>now = new_Date 2025 4 21, fetch = (\<lambda>req. outcome)\<rparr>"

definition json_response :: "jsval \<Rightarrow> fetch_outcome" where
  "json_response data = Responded \<lparr>status = 200, body_text = [], body_json = Some data\<rparr>"

definition error_response :: "nat \<Rightarrow> string \<Rightarrow> fetch_outcome" where
  "error_response code txt = Responded \<lparr>status = code, body_text = txt, body_json = None\<rparr>"

definition example_rows :: "jsval list" where
  "example_rows =
     [JObj [(''group'', JStr ''11a''),
            (''data'', JArr [JStr ''3 - 4'', JStr ''Ma'', JStr ''R12'', JStr ''Mai'',
                             JStr ''Room <b>changed</b>'']),
            (''cellClasses'', JObj [(''1'', JArr [JStr ''cancelStyle''])])],
      JObj [(''group'', JStr ''12''),
            (''data'', JArr [JStr ''5'', JStr ''En'', JStr ''R3'', JStr ''Abt'', JStr []])],
      JObj [(''group'', JStr []),
            (''data'', JArr [JStr ''6'', JStr ''Sp'', JStr ''TH'', JStr ''Ott'', JNull])],
      JObj [(''group'', JStr ''11a''),
            (''data'', JArr [JStr ''1'', JStr ''De'', JStr ''R1'', JStr ''Ulm''])]]"

definition example_payload :: "(string \<times> jsval) list" where
  "example_payload =
     [(''lastUpdate'', JStr ''21.05.2025 07:45''),
      (''rows'', JArr example_rows),
      (''absentElements'', JArr [JObj [(''elementName'', JStr ''Mai'')]])]"

section \<open>Properties\<close>

lemma filter_callback_loop_objects:
  "\<forall>r \<in> set rs. r \<noteq> JNull \<and> r \<noteq> JUndefined \<Longrightarrow>
   filter_callback_loop gs rs = Inr (filter (\<lambda>r. includes_group gs (js_prop r ''group'')) rs)"
  by (induction rs) (simp_all add: js_get_def)

lemma is_object_not_nullish: "is_object r \<Longrightarrow> r \<noteq> JNull \<and> r \<noteq> JUndefined"
  by (auto simp: is_object_def)

text \<open>
  C1.  The filter step returns the rows unchanged when \<open>filterGroups\<close> is absent or empty.
  Otherwise, for a sequence of row objects, it returns exactly the rows whose \<open>group\<close> is a
  string equal to one of the entries of \<open>filterGroups\<close> (no normalisation, no partial
  match), in their original relative order.
\<close>

theorem C1_filterRows_semantics:
  "filterRows rows None = Inr rows \<and>
   filterRows rows (Some []) = Inr rows \<and>
   ((\<forall>r \<in> set rs. is_object r) \<longrightarrow> gs \<noteq> [] \<longrightarrow>
      filterRows (JArr rs) (Some gs) =
        Inr (JArr (filter (\<lambda>r. \<exists>g \<in> set gs. js_prop r ''group'' = JStr g) rs)) \<and>
      subseq (filter (\<lambda>r. \<exists>g \<in> set gs. js_prop r ''group'' = JStr g) rs) rs)"
proof -
  have eq: "includes_group gs v = (\<exists>g \<in> set gs. v = JStr g)" for v
    by (cases v) (auto simp: includes_group_def)
  have "filter_callback_loop gs rs =
          Inr (filter (\<lambda>r. \<exists>g \<in> set gs. js_prop r ''group'' = JStr g) rs)"
    if "\<forall>r \<in> set rs. is_object r"
    using filter_callback_loop_objects [of rs gs] that is_object_not_nullish
    by (simp add: eq)
  then show ?thesis
    by (simp add: filterRows_def)
qed

theorem C1_filterRows_semantics_witness:
  "list_all is_object
     [JObj [(''group'', JStr ''11a'')], JObj [(''group'', JStr ''11A'')],
      JObj [(''group'', JStr ''11'')], JObj [], JObj [(''group'', JStr ''12'')]] \<and>
   filterRows (JArr [JObj [(''group'', JStr ''11a'')], JObj [(''group'', JStr ''11A'')],
                     JObj [(''group'', JStr ''11'')], JObj [], JObj [(''group'', JStr ''12'')]])
              None
   = Inr (JArr [JObj [(''group'', JStr ''11a'')], JObj [(''group'', JStr ''11A'')],
                JObj [(''group'', JStr ''11'')], JObj [], JObj [(''group'', JStr ''12'')]]) \<and>
   filterRows (JArr [JObj [(''group'', JStr ''11a'')], JObj [(''group'', JStr ''11A'')],
                     JObj [(''group'', JStr ''11'')], JObj [], JObj [(''group'', JStr ''12'')]])
              (Some [''12'', ''11a''])
   = Inr (JArr [JObj [(''group'', JStr ''11a'')], JObj [(''group'', JStr ''12'')]])"
  using C1_filterRows_semantics
    [of "JArr [JObj [(''group'', JStr ''11a'')], JObj [(''group'', JStr ''11A'')],
               JObj [(''group'', JStr ''11'')], JObj [], JObj [(''group'', JStr ''12'')]]"
        "[JObj [(''group'', JStr ''11a'')], JObj [(''group'', JStr ''11A'')],
          JObj [(''group'', JStr ''11'')], JObj [], JObj [(''group'', JStr ''12'')]]"
        "[''12'', ''11a'']"]
  by (simp add: is_object_def)

subsection \<open>Calendar arithmetic\<close>

lemma div_lower: "0 < c \<Longrightarrow> c * (x div c) \<le> (x::int)"
  using mult_div_mod_eq [of c x] pos_mod_sign [of c x] by linarith

lemma div_upper: "0 < c \<Longrightarrow> (x::int) < c * (x div c) + c"
  using mult_div_mod_eq [of c x] pos_mod_bound [of c x] by linarith

lemma DayFromYear_lower: "400 * DayFromYear (1970 + e) \<ge> 146097 * e - 506"
proof -
  define a where "a = (e + 1) div 4"
  define b where "b = (e + 69) div 100"
  define c where "c = (e + 369) div 400"
  have eq: "DayFromYear (1970 + e) = 365 * e + a - b + c"
    by (simp add: DayFromYear_def a_def b_def c_def add.commute)
  have "e + 1 < 4 * a + 4" unfolding a_def by (rule div_upper) simp
  moreover have "100 * b \<le> e + 69" unfolding b_def by (rule div_lower) simp
  moreover have "e + 369 < 400 * c + 400" unfolding c_def by (rule div_upper) simp
  ultimately show ?thesis unfolding eq by (simp add: algebra_simps)
qed

lemma DayFromYear_upper: "400 * DayFromYear (1970 + e) \<le> 146097 * e + 589"
proof -
  define a where "a = (e + 1) div 4"
  define b where "b = (e + 69) div 100"
  define c where "c = (e + 369) div 400"
  have eq: "DayFromYear (1970 + e) = 365 * e + a - b + c"
    by (simp add: DayFromYear_def a_def b_def c_def add.commute)
  have "4 * a \<le> e + 1" unfolding a_def by (rule div_lower) simp
  moreover have "e + 69 < 100 * b + 100" unfolding b_def by (rule div_upper) simp
  moreover have "400 * c \<le> e + 369" unfolding c_def by (rule div_lower) simp
  ultimately show ?thesis unfolding eq by (simp add: algebra_simps)
qed

lemma YearFromDay_bounds:
  "DayFromYear (YearFromDay d) \<le> d \<and> d < DayFromYear (YearFromDay d + 1)"
proof -
  define e where "e = (400 * d) div 146097"
  have lo: "146097 * e \<le> 400 * d" unfolding e_def by (rule div_lower) simp
  have hi: "400 * d < 146097 * e + 146097" unfolding e_def by (rule div_upper) simp
  have below: "DayFromYear (1970 + e - 1) \<le> d"
    using DayFromYear_upper [of "e - 1"] lo by (simp add: algebra_simps)
  have above: "d < DayFromYear (1970 + e + 1 + 1)"
    using DayFromYear_lower [of "e + 2"] hi by (simp add: algebra_simps)
  show ?thesis
    unfolding YearFromDay_def Let_def e_def [symmetric]
    using below above by (auto simp: algebra_simps)
qed

lemma div_step:
  fixes x c :: int
  assumes "0 < c"
  shows "(x + 1) div c = x div c + (if (x + 1) mod c = 0 then 1 else 0)"
proof -
  define q where "q = x div c"
  define r where "r = x mod c"
  have x: "x = c * q + r" and r: "0 \<le> r" "r < c"
    using assms by (simp_all add: q_def r_def)
  show ?thesis
  proof (cases "r + 1 = c")
    case True
    then have e: "x + 1 = c * (q + 1) + 0" using x by (simp add: algebra_simps)
    have z: "(0::int) \<le> 0" by simp
    have "(x + 1) div c = q + 1" using e z assms by (rule int_div_pos_eq)
    moreover have "(x + 1) mod c = 0" using e z assms by (rule int_mod_pos_eq)
    ultimately show ?thesis by (simp add: q_def)
  next
    case False
    then have lt: "r + 1 < c" using r by simp
    have e: "x + 1 = c * q + (r + 1)" using x by simp
    have nn: "0 \<le> r + 1" using r by simp
    have "(x + 1) div c = q" using e nn lt by (rule int_div_pos_eq)
    moreover have "(x + 1) mod c = r + 1" using e nn lt by (rule int_mod_pos_eq)
    ultimately show ?thesis using r by (simp add: q_def)
  qed
qed

lemma mod_shift: "(y - c * j) mod c = y mod c" for y :: int
proof -
  have "(y + c * (- j)) mod c = y mod c" by (rule mod_mult_self2)
  then show ?thesis by simp
qed


lemma DayFromYear_step: "DayFromYear (y + 1) = DayFromYear y + DaysInYear y"
proof -
  have s4: "(y - 1969 + 1) mod 4 = y mod 4"
    using mod_shift [of y 4 492] by simp
  have s100: "(y - 1901 + 1) mod 100 = y mod 100"
    using mod_shift [of y 100 19] by simp
  have s400: "(y - 1601 + 1) mod 400 = y mod 400"
    using mod_shift [of y 400 4] by simp
  have a: "(y + 1 - 1969) div 4 = (y - 1969) div 4 + (if y mod 4 = 0 then 1 else 0)"
    using div_step [of 4 "y - 1969"] s4 by (simp add: algebra_simps)
  have b: "(y + 1 - 1901) div 100 = (y - 1901) div 100 + (if y mod 100 = 0 then 1 else 0)"
    using div_step [of 100 "y - 1901"] s100 by (simp add: algebra_simps)
  have c: "(y + 1 - 1601) div 400 = (y - 1601) div 400 + (if y mod 400 = 0 then 1 else 0)"
    using div_step [of 400 "y - 1601"] s400 by (simp add: algebra_simps)
  have m1: "y mod 100 = 0" if "y mod 400 = 0"
  proof -
    have "(400::int) dvd y" using that by (simp add: mod_eq_0_iff_dvd)
    moreover have "(100::int) dvd 400" by simp
    ultimately have "(100::int) dvd y" by (rule dvd_trans [rotated])
    then show ?thesis by (simp add: mod_eq_0_iff_dvd)
  qed
  have m2: "y mod 4 = 0" if "y mod 100 = 0"
  proof -
    have "(100::int) dvd y" using that by (simp add: mod_eq_0_iff_dvd)
    moreover have "(4::int) dvd 100" by simp
    ultimately have "(4::int) dvd y" by (rule dvd_trans [rotated])
    then show ?thesis by (simp add: mod_eq_0_iff_dvd)
  qed
  show ?thesis
    unfolding DayFromYear_def DaysInYear_def a b c
    using m1 m2 by auto
qed

lemma DayWithinYear_bounds:
  "0 \<le> DayWithinYear t \<and> DayWithinYear t < DaysInYear (YearFromTime t)"
  using YearFromDay_bounds [of "Day t"] DayFromYear_step [of "YearFromDay (Day t)"]
  by (simp add: DayWithinYear_def YearFromTime_def)

lemma DaysInYear_cases: "DaysInYear y = 365 \<or> DaysInYear y = 366"
  by (simp add: DaysInYear_def)

lemma MonthFromTime_bounds: "0 \<le> MonthFromTime t \<and> MonthFromTime t \<le> 11"
  by (simp add: MonthFromTime_def Let_def)

lemma DateFromTime_bounds: "1 \<le> DateFromTime t \<and> DateFromTime t \<le> 31"
  using DayWithinYear_bounds [of t] DaysInYear_cases [of "YearFromTime t"]
  by (auto simp: DateFromTime_def MonthFromTime_def InLeapYear_def Let_def split: if_splits)

lemma DaysBeforeMonth_DateFromTime:
  "DaysBeforeMonth (YearFromTime t) (MonthFromTime t) + DateFromTime t - 1 = DayWithinYear t"
  by (auto simp: DaysBeforeMonth_def DateFromTime_def MonthFromTime_def InLeapYear_def Let_def)

lemma MakeDay_fields:
  "MakeDay (YearFromTime t) (MonthFromTime t) (DateFromTime t + k) = Day t + k"
proof -
  have m: "MonthFromTime t div 12 = 0" "MonthFromTime t mod 12 = MonthFromTime t"
    using MonthFromTime_bounds [of t] by simp_all
  show ?thesis
    using DaysBeforeMonth_DateFromTime [of t]
    by (simp add: MakeDay_def Let_def m DayWithinYear_def)
qed

lemma queryDate_offset:
  "queryDate (Some t) k = TimeClip (t + k * msPerDay)"
proof -
  have "(Day t + k) * msPerDay + TimeWithinDay t = t + k * msPerDay"
    by (simp add: Day_def TimeWithinDay_def algebra_simps)
  then show ?thesis
    by (simp add: queryDate_def setDate_def getDate_def MakeDay_fields MakeDate_def)
qed

lemma DayFromYear_mono: "y \<le> z \<Longrightarrow> DayFromYear y \<le> DayFromYear z"
proof (induction z rule: int_ge_induct)
  case base
  show ?case by simp
next
  case (step i)
  have "DayFromYear (i + 1) = DayFromYear i + DaysInYear i"
    by (rule DayFromYear_step)
  then show ?case
    using step DaysInYear_cases [of i] by linarith
qed

lemma YearFromDay_unique:
  assumes "DayFromYear y \<le> n" and "n < DayFromYear (y + 1)"
  shows "YearFromDay n = y"
proof (rule antisym)
  show "YearFromDay n \<le> y"
  proof (rule ccontr)
    assume "\<not> YearFromDay n \<le> y"
    then have "y + 1 \<le> YearFromDay n" by simp
    then have "DayFromYear (y + 1) \<le> DayFromYear (YearFromDay n)"
      by (rule DayFromYear_mono)
    then show False
      using assms(2) YearFromDay_bounds [of n] by linarith
  qed
  show "y \<le> YearFromDay n"
  proof (rule ccontr)
    assume "\<not> y \<le> YearFromDay n"
    then have "YearFromDay n + 1 \<le> y" by simp
    then have "DayFromYear (YearFromDay n + 1) \<le> DayFromYear y"
      by (rule DayFromYear_mono)
    then show False
      using assms(1) YearFromDay_bounds [of n] by linarith
  qed
qed

text \<open>The year of a day is the largest year that starts on or before it.\<close>

lemma YearFromDay_largest: "DayFromYear y \<le> n \<longleftrightarrow> y \<le> YearFromDay n"
proof
  assume a: "DayFromYear y \<le> n"
  show "y \<le> YearFromDay n"
  proof (rule ccontr)
    assume "\<not> y \<le> YearFromDay n"
    then have "YearFromDay n + 1 \<le> y" by simp
    then have "DayFromYear (YearFromDay n + 1) \<le> DayFromYear y"
      by (rule DayFromYear_mono)
    then show False
      using a YearFromDay_bounds [of n] by linarith
  qed
next
  assume "y \<le> YearFromDay n"
  then have "DayFromYear y \<le> DayFromYear (YearFromDay n)"
    by (rule DayFromYear_mono)
  then show "DayFromYear y \<le> n"
    using YearFromDay_bounds [of n] by linarith
qed

lemma Day_MakeDate:
  "0 \<le> tod \<Longrightarrow> tod < msPerDay \<Longrightarrow> Day (MakeDate n tod) = n"
  by (simp add: Day_def MakeDate_def msPerDay_def div_pos_pos_trivial)

text \<open>
  The fields of the date made from a year, a month (0 to 11) and a day of that month are
  that year, month and day.
\<close>

lemma fields_of_MakeDay:
  assumes "0 \<le> mn" "mn \<le> 11" "1 \<le> d"
    and "DaysBeforeMonth y mn + d \<le> (if mn = 11 then DaysInYear y else DaysBeforeMonth y (mn + 1))"
    and "0 \<le> tod" "tod < msPerDay"
  shows "YearFromTime (MakeDate (MakeDay y mn d) tod) = y \<and>
         MonthFromTime (MakeDate (MakeDay y mn d) tod) = mn \<and>
         DateFromTime (MakeDate (MakeDay y mn d) tod) = d"
proof -
  let ?t = "MakeDate (MakeDay y mn d) tod"
  have m: "mn div 12 = 0" "mn mod 12 = mn"
    using assms(1,2) by simp_all
  have day: "Day ?t = DayFromYear y + DaysBeforeMonth y mn + d - 1"
    using assms(5,6) by (simp add: Day_MakeDate MakeDay_def Let_def m)
  have cases: "mn \<in> {0, 1, 2, 3, 4, 5, 6, 7, 8, 9, 10, 11}"
    using assms(1,2) by simp presburger
  have lo: "0 \<le> DaysBeforeMonth y mn"
    using cases
    by (elim insertE emptyE) (simp_all add: DaysBeforeMonth_def Let_def)
  have hi: "DaysBeforeMonth y mn + d \<le> DaysInYear y"
    using cases assms(4) DaysInYear_cases [of y]
    by (elim insertE emptyE) (auto simp: DaysBeforeMonth_def Let_def)
  have yr: "YearFromTime ?t = y"
    unfolding YearFromTime_def day
    using lo hi assms(3) DayFromYear_step [of y]
    by (intro YearFromDay_unique) linarith+
  have dw: "DayWithinYear ?t = DaysBeforeMonth y mn + d - 1"
    by (simp add: DayWithinYear_def yr day)
  have lp: "InLeapYear ?t = (if DaysInYear y = 366 then 1 else 0)"
    by (simp add: InLeapYear_def yr)
  have mo: "MonthFromTime ?t = mn"
    unfolding MonthFromTime_def Let_def dw lp
    using cases assms(3,4) DaysInYear_cases [of y]
    by (elim insertE emptyE) (auto simp: DaysBeforeMonth_def Let_def)
  have "DateFromTime ?t = d"
    unfolding DateFromTime_def Let_def dw lp mo
    using cases
    by (elim insertE emptyE) (auto simp: DaysBeforeMonth_def Let_def)
  then show ?thesis
    using yr mo by simp
qed

subsection \<open>The date as a number\<close>

lemma digit_char_is_digit: "k < 10 \<Longrightarrow> is_digit (digit_char k)"
proof -
  assume "k < 10"
  then have "k \<in> {0,1,2,3,4,5,6,7,8,9}" by auto
  then show ?thesis by (auto simp: is_digit_def digit_char_def)
qed

lemma digit_val_digit_char: "k < 10 \<Longrightarrow> digit_val (digit_char k) = k"
proof -
  assume "k < 10"
  then have "k \<in> {0,1,2,3,4,5,6,7,8,9}" by auto
  then show ?thesis by (auto simp: digit_val_def digit_char_def)
qed

lemma is_digit_not_space: "is_digit c \<Longrightarrow> \<not> is_space c \<and> c \<noteq> CHR ''-'' \<and> c \<noteq> CHR ''+''"
  by (auto simp: is_digit_def is_space_def)

lemma nat_digits_all_digits: "\<forall>c \<in> set (nat_digits n). is_digit c"
proof (induction n rule: nat_digits.induct)
  case (1 n)
  show ?case
  proof (cases "n < 10")
    case True
    then show ?thesis by (simp add: nat_digits.simps [of n] digit_char_is_digit)
  next
    case False
    then show ?thesis using 1 by (simp add: nat_digits.simps [of n] digit_char_is_digit)
  qed
qed

lemma nat_digits_nonempty: "nat_digits n \<noteq> []"
  by (simp add: nat_digits.simps [of n])

lemma digits_value_snoc: "digits_value (ds @ [c]) = 10 * digits_value ds + digit_val c"
  by (simp add: digits_value_def)

lemma digits_value_nat_digits: "digits_value (nat_digits n) = n"
proof (induction n rule: nat_digits.induct)
  case (1 n)
  show ?case
  proof (cases "n < 10")
    case True
    then show ?thesis
      by (simp add: nat_digits.simps [of n] digits_value_def digit_val_digit_char)
  next
    case False
    then show ?thesis
      using 1 by (simp add: nat_digits.simps [of n] digits_value_snoc digit_val_digit_char)
  qed
qed

lemma padStart2_nat_digits:
  "n < 100 \<Longrightarrow> padStart2 (nat_digits n) = [digit_char (n div 10), digit_char (n mod 10)]"
proof -
  assume n: "n < 100"
  show ?thesis
  proof (cases "n < 10")
    case True
    then show ?thesis
      by (simp add: nat_digits.simps [of n] padStart2_def digit_char_def)
  next
    case False
    then have "n div 10 < 10" using n by simp
    then show ?thesis
      using False
      by (simp add: nat_digits.simps [of n] nat_digits.simps [of "n div 10"] padStart2_def)
  qed
qed

lemma digits_value_date_string:
  assumes "m < 100" "d < 100"
  shows "digits_value (nat_digits y @ padStart2 (nat_digits m) @ padStart2 (nat_digits d))
           = y * 10000 + m * 100 + d"
proof -
  have "digits_value (nat_digits y @ [a, b, c, e]) =
          10 * (10 * (10 * (10 * y + digit_val a) + digit_val b) + digit_val c) + digit_val e"
    for a b c e
    using digits_value_snoc [of "nat_digits y @ [a, b, c]" e]
          digits_value_snoc [of "nat_digits y @ [a, b]" c]
          digits_value_snoc [of "nat_digits y @ [a]" b]
          digits_value_snoc [of "nat_digits y" a]
    by (simp add: digits_value_nat_digits)
  then have v: "digits_value (nat_digits y @ padStart2 (nat_digits m) @ padStart2 (nat_digits d))
                  = 10000 * y + 1000 * (m div 10) + 100 * (m mod 10) + 10 * (d div 10) + d mod 10"
    using assms
    by (simp add: padStart2_nat_digits digit_val_digit_char)
  have "10 * (m div 10) + m mod 10 = m" "10 * (d div 10) + d mod 10 = d"
    by simp_all
  then show ?thesis
    unfolding v by linarith
qed

lemma date_string_all_digits:
  assumes "m < 100" "d < 100"
  shows "takeWhile is_digit (nat_digits y @ padStart2 (nat_digits m) @ padStart2 (nat_digits d))
           = nat_digits y @ padStart2 (nat_digits m) @ padStart2 (nat_digits d)"
  using assms nat_digits_all_digits [of y]
  by (simp add: padStart2_nat_digits digit_char_is_digit takeWhile_eq_all_conv)

lemma parseInt10_date_string_nonneg:
  assumes "m < 100" "d < 100"
  shows "parseInt10 (nat_digits y @ padStart2 (nat_digits m) @ padStart2 (nat_digits d))
           = Some (int (y * 10000 + m * 100 + d))"
proof -
  let ?s = "nat_digits y @ padStart2 (nat_digits m) @ padStart2 (nat_digits d)"
  obtain c cs where y: "nat_digits y = c # cs"
    using nat_digits_nonempty [of y] by (cases "nat_digits y") auto
  have c: "is_digit c" using nat_digits_all_digits [of y] y by simp
  have s: "?s = c # (cs @ padStart2 (nat_digits m) @ padStart2 (nat_digits d))"
    by (simp add: y)
  have drop: "dropWhile is_space ?s = ?s"
    using is_digit_not_space [OF c] by (simp add: s)
  have hd: "hd ?s = c" by (simp add: s)
  have ne: "?s \<noteq> []" by (simp add: s)
  show ?thesis
    unfolding parseInt10_def Let_def drop hd
    using is_digit_not_space [OF c] ne
    by (simp add: date_string_all_digits [OF assms] digits_value_date_string [OF assms])
qed

lemma parseInt10_date_string_neg:
  assumes "m < 100" "d < 100"
  shows "parseInt10 (CHR ''-'' # nat_digits y @ padStart2 (nat_digits m) @ padStart2 (nat_digits d))
           = Some (- int (y * 10000 + m * 100 + d))"
proof -
  have sp: "\<not> is_space CHR ''-''" by (simp add: is_space_def)
  show ?thesis
    unfolding parseInt10_def Let_def
    using nat_digits_nonempty [of y] sp
    by (simp add: date_string_all_digits [OF assms] digits_value_date_string [OF assms])
qed

lemma getUntisDate_value:
  "getUntisDate (Some t) =
     Some (if 0 \<le> YearFromTime t
           then YearFromTime t * 10000 + (MonthFromTime t + 1) * 100 + DateFromTime t
           else YearFromTime t * 10000 - (MonthFromTime t + 1) * 100 - DateFromTime t)"
proof -
  define m where "m = nat (MonthFromTime t + 1)"
  define d where "d = nat (DateFromTime t)"
  have m: "int m = MonthFromTime t + 1" "m < 100"
    using MonthFromTime_bounds [of t] unfolding m_def by linarith+
  have d: "int d = DateFromTime t" "d < 100"
    using DateFromTime_bounds [of t] unfolding d_def by linarith+
  have ms: "int_to_string (MonthFromTime t + 1) = nat_digits m"
    using MonthFromTime_bounds [of t] by (simp add: int_to_string_def m_def)
  have ds: "int_to_string (DateFromTime t) = nat_digits d"
    using DateFromTime_bounds [of t] by (simp add: int_to_string_def d_def)
  show ?thesis
  proof (cases "0 \<le> YearFromTime t")
    case True
    then show ?thesis
      using parseInt10_date_string_nonneg [OF m(2) d(2), of "nat (YearFromTime t)"] m(1) d(1)
      by (simp add: getUntisDate_def getFullYear_def getMonth_def getDate_def
          num_to_string_def ms ds int_to_string_def [of "YearFromTime t"])
  next
    case False
    then show ?thesis
      using parseInt10_date_string_neg [OF m(2) d(2), of "nat (- YearFromTime t)"] m(1) d(1)
      by (simp add: getUntisDate_def getFullYear_def getMonth_def getDate_def
          num_to_string_def ms ds int_to_string_def [of "YearFromTime t"])
  qed
qed

text \<open>
  C2 (as amended).  For every valid date and every integer offset, the query date is the
  date that many days later (or earlier): the same time of day, the day number moved by
  the offset, month, year and leap-day rollover being those of the calendar fields of the
  moved day.  Whenever that date is within the range of \<^verbatim>\<open>Date\<close> and its year is not
  negative, \<^verbatim>\<open>getUntisDate\<close> yields year * 10000 + month * 100 + day of it, with month from
  1 to 12 and day from 1 to 31.
\<close>

theorem C2_date_codec:
  assumes "queryDate (Some t) k = Some t'" and "0 \<le> YearFromTime t'"
  shows "t' = t + k * msPerDay \<and> Day t' = Day t + k \<and>
         getUntisDate (queryDate (Some t) k) =
           Some (YearFromTime t' * 10000 + (MonthFromTime t' + 1) * 100 + DateFromTime t') \<and>
         1 \<le> MonthFromTime t' + 1 \<and> MonthFromTime t' + 1 \<le> 12 \<and>
         1 \<le> DateFromTime t' \<and> DateFromTime t' \<le> 31"
proof -
  have t': "t' = t + k * msPerDay"
    using assms(1) by (simp add: queryDate_offset TimeClip_def split: if_splits)
  have "Day t' = Day t + k"
    by (simp add: t' Day_def msPerDay_def)
  moreover have "getUntisDate (queryDate (Some t) k) =
      Some (YearFromTime t' * 10000 + (MonthFromTime t' + 1) * 100 + DateFromTime t')"
    using assms(2) by (simp add: assms(1) getUntisDate_value)
  ultimately show ?thesis
    using t' MonthFromTime_bounds [of t'] DateFromTime_bounds [of t'] by simp
qed

lemma new_Date_2024_02_28: "new_Date 2024 1 28 = Some 1709078400000"
  by (simp add: new_Date_def TimeClip_def MakeDate_def MakeDay_def DayFromYear_def
      DaysBeforeMonth_def DaysInYear_def msPerDay_def Let_def)

lemma fields_2024_02_29:
  "YearFromTime 1709164800000 = 2024 \<and> MonthFromTime 1709164800000 = 1 \<and>
   DateFromTime 1709164800000 = 29"
  by (simp add: DateFromTime_def MonthFromTime_def DayWithinYear_def InLeapYear_def
      YearFromTime_def YearFromDay_def Day_def DayFromYear_def DaysInYear_def msPerDay_def
      Let_def)

lemma new_Date_2024_12_31: "new_Date 2024 11 31 = Some 1735603200000"
  by (simp add: new_Date_def TimeClip_def MakeDate_def MakeDay_def DayFromYear_def
      DaysBeforeMonth_def DaysInYear_def msPerDay_def Let_def)

lemma fields_2025_01_01:
  "YearFromTime 1735689600000 = 2025 \<and> MonthFromTime 1735689600000 = 0 \<and>
   DateFromTime 1735689600000 = 1"
  by (simp add: DateFromTime_def MonthFromTime_def DayWithinYear_def InLeapYear_def
      YearFromTime_def YearFromDay_def Day_def DayFromYear_def DaysInYear_def msPerDay_def
      Let_def)

theorem C2_date_codec_witness:
  "queryDate (new_Date 2024 1 28) 1 = Some 1709164800000 \<and>
   0 \<le> YearFromTime 1709164800000 \<and>
   getUntisDate (queryDate (new_Date 2024 1 28) 1) = Some 20240229 \<and>
   queryDate (new_Date 2024 11 31) 1 = Some 1735689600000 \<and>
   0 \<le> YearFromTime 1735689600000 \<and>
   getUntisDate (queryDate (new_Date 2024 11 31) 1) = Some 20250101"
proof -
  have q: "queryDate (Some 1709078400000) 1 = Some 1709164800000"
    by (simp add: queryDate_offset TimeClip_def msPerDay_def)
  have y: "0 \<le> YearFromTime 1709164800000"
    by (simp add: fields_2024_02_29)
  have q': "queryDate (Some 1735603200000) 1 = Some 1735689600000"
    by (simp add: queryDate_offset TimeClip_def msPerDay_def)
  have y': "0 \<le> YearFromTime 1735689600000"
    by (simp add: fields_2025_01_01)
  show ?thesis
    using C2_date_codec [OF q y] C2_date_codec [OF q' y'] q y q' y'
    by (simp add: new_Date_2024_02_28 fields_2024_02_29 new_Date_2024_12_31 fields_2025_01_01)
qed

lemma new_Date_1000_01_01: "new_Date 1000 0 1 = Some (- 30610224000000)"
  by (simp add: new_Date_def TimeClip_def MakeDate_def MakeDay_def DayFromYear_def
      DaysBeforeMonth_def DaysInYear_def msPerDay_def Let_def)

lemma fields_1000_01_01: "YearFromTime (- 30610224000000) = 1000"
  by (simp add: YearFromTime_def YearFromDay_def Day_def DayFromYear_def msPerDay_def Let_def)

lemma fields_minus1_01_01:
  "YearFromTime (- 62198755200000) = - 1 \<and> MonthFromTime (- 62198755200000) = 0 \<and>
   DateFromTime (- 62198755200000) = 1"
  by (simp add: DateFromTime_def MonthFromTime_def DayWithinYear_def InLeapYear_def
      YearFromTime_def YearFromDay_def Day_def DayFromYear_def DaysInYear_def msPerDay_def
      Let_def)

text \<open>
  Moving 1 January 1000 back by 365608 days gives 1 January of the year -1.  The string
  built from the fields is \<^verbatim>\<open>-10101\<close>, which \<^verbatim>\<open>parseInt\<close> reads as a negative number; year
  * 10000 + month * 100 + day is -9899.
\<close>

theorem C2_counterexample:
  "getFullYear (new_Date 1000 0 1) = Some 1000 \<and>
   getFullYear (queryDate (new_Date 1000 0 1) (- 365608)) = Some (- 1) \<and>
   getMonth (queryDate (new_Date 1000 0 1) (- 365608)) = Some 0 \<and>
   getDate (queryDate (new_Date 1000 0 1) (- 365608)) = Some 1 \<and>
   getUntisDate (queryDate (new_Date 1000 0 1) (- 365608)) = Some (- 10101) \<and>
   getUntisDate (queryDate (new_Date 1000 0 1) (- 365608))
     \<noteq> Some ((- 1) * 10000 + (0 + 1) * 100 + 1)"
proof -
  have q: "queryDate (new_Date 1000 0 1) (- 365608) = Some (- 62198755200000)"
    by (simp add: new_Date_1000_01_01 queryDate_offset TimeClip_def msPerDay_def)
  show ?thesis
    unfolding q
    by (simp add: new_Date_1000_01_01 getFullYear_def getMonth_def getDate_def
        getUntisDate_value fields_1000_01_01 fields_minus1_01_01)
qed

subsection \<open>The retrieval call\<close>

lemma call_invalid:
  "invalid_config cfg \<Longrightarrow>
   getWebUntisTimetable e cfg opts w = (JNull, w\<lparr>stderr := stderr w @ [LogInvalidConfig]\<rparr>)"
  by (simp add: getWebUntisTimetable_def)

lemma call_valid:
  "\<not> invalid_config cfg \<Longrightarrow>
   getWebUntisTimetable e cfg opts w =
     (case try_block e (build_request e w cfg opts) (opt_filterGroups opts) of
        (Inr v, ls) \<Rightarrow>
          (v, w\<lparr>sent := sent w @ [build_request e w cfg opts], stderr := stderr w @ ls\<rparr>)
      | (Inl err, ls) \<Rightarrow>
          (JNull, w\<lparr>sent := sent w @ [build_request e w cfg opts],
                     stderr := stderr w @ ls @ catch_block err\<rparr>))"
  by (simp add: getWebUntisTimetable_def Let_def split: prod.splits sum.splits)

lemma try_block_ok:
  "fetch e req = Responded resp \<Longrightarrow> ok resp \<Longrightarrow> body_json resp = Some data \<Longrightarrow>
   try_block e req fg = handle_data fg data"
  by (simp add: try_block_def)

lemma handle_data_truthy_error:
  "truthy (js_prop data ''error'') \<Longrightarrow>
   handle_data fg data =
     (Inl (ApiError (js_prop (js_prop data ''error'') ''message'')),
      [LogApiError (js_prop (js_prop data ''error'') ''message'')
                   (js_prop (js_prop data ''error'') ''code'')])"
  by (auto simp: handle_data_def js_get_def)

lemma handle_data_falsy_error:
  "\<not> truthy (js_prop data ''error'') \<Longrightarrow> data \<noteq> JNull \<Longrightarrow> data \<noteq> JUndefined \<Longrightarrow>
   handle_data fg data = (process_payload fg data, [])"
  by (auto simp: handle_data_def js_get_def)

lemma answering_simps [simp]:
  "fetch (answering outcome) req = outcome"
  by (simp add: answering_def)

lemma ok_200: "ok \<lparr>status = 200, body_text = t, body_json = j\<rparr>"
  by (simp add: ok_def)

lemma valid_example_config: "\<not> invalid_config example_config"
  by (simp add: invalid_config_def example_config_def isArray_def)

lemma js_prop_update:
  "js_prop (JObj (AList.update k v kvs)) k' = (if k' = k then v else js_prop (JObj kvs) k')"
  by (simp add: update_conv')

lemma process_payload_object:
  assumes "js_prop data ''payload'' = JObj pk"
  shows "process_payload fg data =
           (case filterRows (js_prop (JObj pk) ''rows'') fg of
              Inl e \<Rightarrow> Inl e
            | Inr filteredRows \<Rightarrow>
                Inr (JObj (AList.update ''absentElements'' (js_prop (JObj pk) ''absentElements'')
                          (AList.update ''rows'' filteredRows pk))))"
  unfolding process_payload_def assms
  by (simp add: js_get_def split: sum.splits)

lemma handle_data_result:
  "handle_data fg data = (Inr v, ls) \<Longrightarrow>
   ls = [] \<and> \<not> truthy (js_prop data ''error'') \<and> process_payload fg data = Inr v"
  by (auto simp: handle_data_def js_get_def split: if_splits)

lemma call_success:
  assumes "\<not> invalid_config cfg"
    and "fetch e (build_request e w cfg opts) = Responded resp"
    and "ok resp"
    and "body_json resp = Some data"
    and "fst (getWebUntisTimetable e cfg opts w) \<noteq> JNull"
  shows "process_payload (opt_filterGroups opts) data
           = Inr (fst (getWebUntisTimetable e cfg opts w)) \<and>
         \<not> truthy (js_prop data ''error'')"
proof (cases "handle_data (opt_filterGroups opts) data")
  case (Pair r ls)
  show ?thesis
  proof (cases r)
    case (Inl err)
    then show ?thesis
      using assms Pair by (simp add: call_valid try_block_ok)
  next
    case (Inr v)
    then show ?thesis
      using assms Pair handle_data_result [of "opt_filterGroups opts" data v ls]
      by (simp add: call_valid try_block_ok)
  qed
qed

lemma filter_callback_loop_error:
  "filter_callback_loop gs rs = Inl x \<Longrightarrow> x = TypeError"
  by (induction rs arbitrary: x) (auto simp: js_get_def split: if_splits sum.splits)

lemma filterRows_error: "filterRows rows fg = Inl x \<Longrightarrow> x = TypeError"
  by (cases rows)
     (auto simp: filterRows_def map_sum_def split: option.splits if_splits sum.splits
           dest: filter_callback_loop_error)

lemma process_payload_error: "process_payload fg data = Inl x \<Longrightarrow> x = TypeError"
  by (auto simp: process_payload_def js_get_def split: if_splits sum.splits
           dest: filterRows_error)

lemma filterRows_objects:
  assumes "\<forall>r \<in> set rs. is_object r"
  shows "\<exists>rs'. filterRows (JArr rs) fg = Inr (JArr rs') \<and> subseq rs' rs"
proof -
  have "filter_callback_loop gs rs
          = Inr (filter (\<lambda>r. includes_group gs (js_prop r ''group'')) rs)" for gs
    using filter_callback_loop_objects [of rs gs] assms is_object_not_nullish by simp
  then show ?thesis
    by (cases fg) (auto simp: filterRows_def)
qed

lemma update_fresh: "k \<notin> fst ` set al \<Longrightarrow> AList.update k v al = al @ [(k, v)]"
  by (induction al) auto

lemma template_keys:
  "map fst BASE_MONITOR_PAYLOAD_TEMPLATE =
     [''strikethrough'', ''mergeBlocks'', ''showOnlyFutureSub'', ''showBreakSupervisions'',
      ''showTeacher'', ''showClass'', ''showHour'', ''showInfo'', ''showRoom'', ''showSubject'',
      ''groupBy'', ''hideAbsent'', ''departmentElementType'', ''hideCancelWithSubstitution'',
      ''hideCancelCausedByEvent'', ''showTime'', ''showSubstText'', ''showAbsentElements'',
      ''showAffectedElements'', ''showUnitTime'', ''showMessages'', ''showStudentgroup'',
      ''enableSubstitutionFrom'', ''showSubstitutionFrom'', ''showTeacherOnEvent'',
      ''showAbsentTeacher'', ''strikethroughAbsentTeacher'', ''activityTypeIds'', ''showEvent'',
      ''showCancel'', ''showOnlyCancel'', ''showSubstTypeColor'', ''showExamSupervision'',
      ''showUnheraldedExams'']"
  by (simp add: BASE_MONITOR_PAYLOAD_TEMPLATE_def)

lemma template_fresh:
  "''schoolName'' \<notin> set (map fst BASE_MONITOR_PAYLOAD_TEMPLATE)"
  "''formatName'' \<notin> set (map fst BASE_MONITOR_PAYLOAD_TEMPLATE)"
  "''departmentIds'' \<notin> set (map fst BASE_MONITOR_PAYLOAD_TEMPLATE)"
  "''date'' \<notin> set (map fst BASE_MONITOR_PAYLOAD_TEMPLATE)"
  "''dateOffset'' \<notin> set (map fst BASE_MONITOR_PAYLOAD_TEMPLATE)"
  "''numberOfDays'' \<notin> set (map fst BASE_MONITOR_PAYLOAD_TEMPLATE)"
  unfolding template_keys by simp_all

lemma template_distinct: "distinct (map fst BASE_MONITOR_PAYLOAD_TEMPLATE)"
  unfolding template_keys by simp

lemma build_payload_template:
  "build_payload BASE_MONITOR_PAYLOAD_TEMPLATE cfg untisDate offset days =
     JObj (BASE_MONITOR_PAYLOAD_TEMPLATE @
           [(''schoolName'', js_prop cfg ''schoolName''),
            (''formatName'', js_prop cfg ''formatName''),
            (''departmentIds'', js_prop cfg ''departmentIds''),
            (''date'', number_val untisDate),
            (''dateOffset'', JNum offset),
            (''numberOfDays'', JNum days)])"
proof -
  let ?B = BASE_MONITOR_PAYLOAD_TEMPLATE
  have 1: "AList.update ''schoolName'' a ?B = ?B @ [(''schoolName'', a)]" for a
    using template_fresh(1) by (intro update_fresh) simp
  have 2: "AList.update ''formatName'' b (?B @ [(''schoolName'', a)])
             = ?B @ [(''schoolName'', a), (''formatName'', b)]" for a b
    using template_fresh(2) update_fresh [of "''formatName''" "?B @ [(''schoolName'', a)]" b]
    by simp
  have 3: "AList.update ''departmentIds'' c (?B @ [(''schoolName'', a), (''formatName'', b)])
             = ?B @ [(''schoolName'', a), (''formatName'', b), (''departmentIds'', c)]" for a b c
    using template_fresh(3)
      update_fresh [of "''departmentIds''" "?B @ [(''schoolName'', a), (''formatName'', b)]" c]
    by simp
  have 4: "AList.update ''date'' d
             (?B @ [(''schoolName'', a), (''formatName'', b), (''departmentIds'', c)])
             = ?B @ [(''schoolName'', a), (''formatName'', b), (''departmentIds'', c),
                     (''date'', d)]" for a b c d
    using template_fresh(4)
      update_fresh [of "''date''"
        "?B @ [(''schoolName'', a), (''formatName'', b), (''departmentIds'', c)]" d]
    by simp
  have 5: "AList.update ''dateOffset'' x
             (?B @ [(''schoolName'', a), (''formatName'', b), (''departmentIds'', c),
                    (''date'', d)])
             = ?B @ [(''schoolName'', a), (''formatName'', b), (''departmentIds'', c),
                     (''date'', d), (''dateOffset'', x)]" for a b c d x
    using template_fresh(5)
      update_fresh [of "''dateOffset''"
        "?B @ [(''schoolName'', a), (''formatName'', b), (''departmentIds'', c), (''date'', d)]" x]
    by simp
  have 6: "AList.update ''numberOfDays'' y
             (?B @ [(''schoolName'', a), (''formatName'', b), (''departmentIds'', c),
                    (''date'', d), (''dateOffset'', x)])
             = ?B @ [(''schoolName'', a), (''formatName'', b), (''departmentIds'', c),
                     (''date'', d), (''dateOffset'', x), (''numberOfDays'', y)]" for a b c d x y
    using template_fresh(6)
      update_fresh [of "''numberOfDays''"
        "?B @ [(''schoolName'', a), (''formatName'', b), (''departmentIds'', c), (''date'', d),
               (''dateOffset'', x)]" y]
    by simp
  show ?thesis
    unfolding build_payload_def 1 2 3 4 5 6 ..
qed

lemma template_lookup:
  assumes "(k, v) \<in> set BASE_MONITOR_PAYLOAD_TEMPLATE"
  shows "js_prop (JObj (BASE_MONITOR_PAYLOAD_TEMPLATE @ rest)) k = v"
  using assms template_distinct by simp

lemma call_world:
  "template (snd (getWebUntisTimetable e cfg opts w)) = template w \<and>
   (if invalid_config cfg then sent (snd (getWebUntisTimetable e cfg opts w)) = sent w
    else sent (snd (getWebUntisTimetable e cfg opts w)) = sent w @ [build_request e w cfg opts])"
  by (auto simp: call_invalid call_valid split: prod.splits sum.splits)




lemma filter_example_rows:
  "filterRows (JArr example_rows) (Some [''11a'']) =
     Inr (JArr [example_rows ! 0, example_rows ! 3])"
  by (simp add: filterRows_def example_rows_def js_get_def includes_group_def)




text \<open>
  C10.  For a success-status JSON object with an \<open>error\<close> field, an API error is logged
  exactly when the field is truthy.  When it is falsy (\<^verbatim>\<open>null\<close>, \<^verbatim>\<open>0\<close>, \<^verbatim>\<open>false\<close>, the
  empty string), no API error is logged or thrown and the body is processed as a
  successful retrieval: the result is what processing the payload gives, and it is a
  payload object whenever the payload is an object whose rows are an array of objects.
\<close>

theorem C10_falsy_error_field:
  assumes "\<not> invalid_config cfg"
    and "fetch e (build_request e w cfg opts) = Responded resp"
    and "ok resp"
    and "body_json resp = Some (JObj kvs)"
    and "map_of kvs ''error'' = Some err"
  shows "(truthy err \<longleftrightarrow>
            (\<exists>m c. LogApiError m c \<in> set (drop (length (stderr w))
                       (stderr (snd (getWebUntisTimetable e cfg opts w)))))) \<and>
         (\<not> truthy err \<longrightarrow>
            fst (getWebUntisTimetable e cfg opts w) =
              (case process_payload (opt_filterGroups opts) (JObj kvs) of
                 Inl x \<Rightarrow> JNull | Inr v \<Rightarrow> v) \<and>
            (\<forall>m. LogCaught (ApiError m) \<notin> set (drop (length (stderr w))
                       (stderr (snd (getWebUntisTimetable e cfg opts w))))) \<and>
            (\<forall>pk rs. map_of kvs ''payload'' = Some (JObj pk) \<and> map_of pk ''rows'' = Some (JArr rs)
                       \<and> (\<forall>r \<in> set rs. is_object r) \<longrightarrow>
                 (\<exists>ps rs'. fst (getWebUntisTimetable e cfg opts w) = JObj ps \<and>
                            js_prop (JObj ps) ''rows'' = JArr rs' \<and> subseq rs' rs)))"
proof -
  let ?r = "getWebUntisTimetable e cfg opts w"
  let ?fg = "opt_filterGroups opts"
  have err: "js_prop (JObj kvs) ''error'' = err"
    using assms(5) by simp
  have tb: "try_block e (build_request e w cfg opts) ?fg = handle_data ?fg (JObj kvs)"
    using assms(2-4) by (rule try_block_ok)
  show ?thesis
  proof (cases "truthy err")
    case True
    then have "handle_data ?fg (JObj kvs) =
        (Inl (ApiError (js_prop err ''message'')),
         [LogApiError (js_prop err ''message'') (js_prop err ''code'')])"
      using handle_data_truthy_error [of "JObj kvs" ?fg] err by simp
    then have "stderr (snd ?r) = stderr w @
        [LogApiError (js_prop err ''message'') (js_prop err ''code''),
         LogCaught (ApiError (js_prop err ''message''))]"
      using assms(1) tb by (simp add: call_valid catch_block_def)
    then show ?thesis
      using True by auto
  next
    case False
    then have h: "handle_data ?fg (JObj kvs) = (process_payload ?fg (JObj kvs), [])"
      using handle_data_falsy_error [of "JObj kvs" ?fg] err by simp
    show ?thesis
    proof (cases "process_payload ?fg (JObj kvs)")
      case (Inl x)
      then have x: "x = TypeError" by (rule process_payload_error)
      have "fst ?r = JNull" "stderr (snd ?r) = stderr w @ [LogCaught TypeError]"
        using assms(1) tb h Inl x by (simp_all add: call_valid catch_block_def)
      moreover have "\<not> (\<exists>ps. process_payload ?fg (JObj kvs) = Inr (JObj ps))"
        using Inl by simp
      moreover have "\<exists>ps rs'. process_payload ?fg (JObj kvs) = Inr (JObj ps)"
        if a: "map_of kvs ''payload'' = Some (JObj pk)" and b: "map_of pk ''rows'' = Some (JArr rs)"
           and c: "\<forall>r \<in> set rs. is_object r" for pk rs
        using filterRows_objects [OF c, of ?fg] a b
              process_payload_object [of "JObj kvs" pk ?fg]
        by auto
      ultimately show ?thesis
        using False Inl by auto
    next
      case (Inr v)
      have r: "fst ?r = v" "stderr (snd ?r) = stderr w"
        using assms(1) tb h Inr by (simp_all add: call_valid)
      have "\<exists>ps rs'. v = JObj ps \<and> js_prop (JObj ps) ''rows'' = JArr rs' \<and> subseq rs' rs"
        if a: "map_of kvs ''payload'' = Some (JObj pk)" and b: "map_of pk ''rows'' = Some (JArr rs)"
           and c: "\<forall>r \<in> set rs. is_object r" for pk rs
      proof -
        obtain rs' where f: "filterRows (JArr rs) ?fg = Inr (JArr rs')" "subseq rs' rs"
          using filterRows_objects [OF c, of ?fg] by auto
        have "v = JObj (AList.update ''absentElements'' (js_prop (JObj pk) ''absentElements'')
                         (AList.update ''rows'' (JArr rs') pk))"
          using Inr a b f(1) process_payload_object [of "JObj kvs" pk ?fg] by simp
        then show ?thesis
          using f(2) by (auto simp: update_conv')
      qed
      then show ?thesis
        using False Inr r by auto
    qed
  qed
qed

theorem C10_falsy_error_field_witness:
  "\<not> truthy JNull \<and>
   fst (getWebUntisTimetable
          (answering (json_response
             (JObj [(''error'', JNull), (''payload'', JObj example_payload)])))
          example_config no_options initial_world) = JObj example_payload \<and>
   (\<forall>m c. LogApiError m c \<notin> set (stderr (snd (getWebUntisTimetable
          (answering (json_response
             (JObj [(''error'', JNull), (''payload'', JObj example_payload)])))
          example_config no_options initial_world))))"
proof -
  let ?kvs = "[(''error'', JNull), (''payload'', JObj example_payload)]"
  let ?e = "answering (json_response (JObj ?kvs))"
  let ?resp = "\<lparr>status = 200, body_text = [], body_json = Some (JObj ?kvs)\<rparr>"
  have h2: "fetch ?e (build_request ?e initial_world example_config no_options)
              = Responded ?resp"
    by (simp add: json_response_def)
  have h3: "ok ?resp" by (rule ok_200)
  have h4: "body_json ?resp = Some (JObj ?kvs)" by simp
  have h5: "map_of ?kvs ''error'' = Some JNull" by simp
  have p: "process_payload (opt_filterGroups no_options) (JObj ?kvs)
             = Inr (JObj example_payload)"
    by (simp add: process_payload_def js_get_def filterRows_def example_payload_def
        no_options_def)
  show ?thesis
    using C10_falsy_error_field [OF valid_example_config h2 h3 h4 h5]
    by (simp add: p initial_world_def)
qed

text \<open>
  C6.  For every successful retrieval of a payload object, the result is an object whose
  \<open>rows\<close> is the output of the filter step on the payload's rows, whose
  \<open>absentElements\<close> is the payload's, unfiltered, and every other property of which (such as
  \<open>lastUpdate\<close>) is the payload's own.
\<close>

theorem C6_payload_frame:
  assumes "\<not> invalid_config cfg"
    and "fetch e (build_request e w cfg opts) = Responded resp"
    and "ok resp"
    and "body_json resp = Some data"
    and "js_prop data ''payload'' = JObj pk"
    and "fst (getWebUntisTimetable e cfg opts w) \<noteq> JNull"
  shows "\<exists>ps filteredRows.
           fst (getWebUntisTimetable e cfg opts w) = JObj ps \<and>
           filterRows (js_prop (JObj pk) ''rows'') (opt_filterGroups opts) = Inr filteredRows \<and>
           js_prop (JObj ps) ''rows'' = filteredRows \<and>
           js_prop (JObj ps) ''absentElements'' = js_prop (JObj pk) ''absentElements'' \<and>
           (\<forall>k. k \<noteq> ''rows'' \<longrightarrow> js_prop (JObj ps) k = js_prop (JObj pk) k) \<and>
           (\<forall>k. k \<noteq> ''rows'' \<longrightarrow> k \<noteq> ''absentElements'' \<longrightarrow> map_of ps k = map_of pk k)"
proof -
  have p: "process_payload (opt_filterGroups opts) data
             = Inr (fst (getWebUntisTimetable e cfg opts w))"
    using call_success [OF assms(1-4) assms(6)] by simp
  obtain filteredRows where
    f: "filterRows (js_prop (JObj pk) ''rows'') (opt_filterGroups opts) = Inr filteredRows"
    using p unfolding process_payload_object [OF assms(5)]
    by (cases "filterRows (js_prop (JObj pk) ''rows'') (opt_filterGroups opts)") auto
  define ps where
    "ps = AList.update ''absentElements'' (js_prop (JObj pk) ''absentElements'')
            (AList.update ''rows'' filteredRows pk)"
  have r: "fst (getWebUntisTimetable e cfg opts w) = JObj ps"
    using p unfolding process_payload_object [OF assms(5)] f ps_def by simp
  have "js_prop (JObj ps) k = (if k = ''rows'' then filteredRows else js_prop (JObj pk) k)" for k
    unfolding ps_def js_prop_update by simp
  moreover have "map_of ps k = map_of pk k" if "k \<noteq> ''rows''" "k \<noteq> ''absentElements''" for k
    using that unfolding ps_def by (simp add: update_conv')
  ultimately show ?thesis
    using r f by auto
qed

theorem C6_payload_frame_witness:
  "fst (getWebUntisTimetable
          (answering (json_response (JObj [(''payload'', JObj example_payload)])))
          example_config (no_options\<lparr>opt_filterGroups := Some [''11a'']\<rparr>) initial_world)
     \<noteq> JNull \<and>
   (\<exists>ps. fst (getWebUntisTimetable
          (answering (json_response (JObj [(''payload'', JObj example_payload)])))
          example_config (no_options\<lparr>opt_filterGroups := Some [''11a'']\<rparr>) initial_world)
        = JObj ps \<and>
      js_prop (JObj ps) ''rows'' = JArr [example_rows ! 0, example_rows ! 3] \<and>
      js_prop (JObj ps) ''absentElements'' = JArr [JObj [(''elementName'', JStr ''Mai'')]] \<and>
      js_prop (JObj ps) ''lastUpdate'' = JStr ''21.05.2025 07:45'')"
proof -
  let ?data = "JObj [(''payload'', JObj example_payload)]"
  let ?e = "answering (json_response ?data)"
  let ?opts = "no_options\<lparr>opt_filterGroups := Some [''11a'']\<rparr>"
  let ?resp = "\<lparr>status = 200, body_text = [], body_json = Some ?data\<rparr>"
  have h2: "fetch ?e (build_request ?e initial_world example_config ?opts) = Responded ?resp"
    by (simp add: json_response_def)
  have h3: "ok ?resp" by (rule ok_200)
  have h4: "body_json ?resp = Some ?data" by simp
  have h5: "js_prop ?data ''payload'' = JObj example_payload" by simp
  have rows: "js_prop (JObj example_payload) ''rows'' = JArr example_rows"
    by (simp add: example_payload_def)
  have "\<exists>ps. process_payload (Some [''11a'']) ?data = Inr (JObj ps)"
    unfolding process_payload_object [OF h5] rows filter_example_rows by simp
  then have h6: "fst (getWebUntisTimetable ?e example_config ?opts initial_world) \<noteq> JNull"
    using valid_example_config
    by (auto simp: call_valid try_block_ok [OF h2 h3 h4] handle_data_falsy_error)
  obtain ps filteredRows where
    "fst (getWebUntisTimetable ?e example_config ?opts initial_world) = JObj ps"
    "filterRows (js_prop (JObj example_payload) ''rows'') (opt_filterGroups ?opts)
       = Inr filteredRows"
    "js_prop (JObj ps) ''rows'' = filteredRows"
    "js_prop (JObj ps) ''absentElements'' = js_prop (JObj example_payload) ''absentElements''"
    "\<forall>k. k \<noteq> ''rows'' \<longrightarrow> js_prop (JObj ps) k = js_prop (JObj example_payload) k"
    using C6_payload_frame [OF valid_example_config h2 h3 h4 h5 h6] by blast
  then show ?thesis
    using h6 rows filter_example_rows
    by (auto simp: example_payload_def)
qed

text \<open>
  C5 (as amended).  If the school configuration is absent, or lacks \<open>schoolName\<close> or
  \<open>formatName\<close> or has it \<^verbatim>\<open>null\<close> or empty, or its \<open>departmentIds\<close> is absent or not an
  array, the call reports an invalid configuration and returns \<^verbatim>\<open>null\<close> without sending a
  request.  (What the array holds is not looked at.)
\<close>

theorem C5_identity_validation:
  assumes "cfg = JNull \<or> cfg = JUndefined \<or>
           (\<exists>kvs. cfg = JObj kvs \<and>
              (map_of kvs ''schoolName'' \<in> {None, Some JNull, Some (JStr [])} \<or>
               map_of kvs ''formatName'' \<in> {None, Some JNull, Some (JStr [])} \<or>
               (\<nexists>ids. map_of kvs ''departmentIds'' = Some (JArr ids))))"
  shows "fst (getWebUntisTimetable e cfg opts w) = JNull \<and>
         sent (snd (getWebUntisTimetable e cfg opts w)) = sent w \<and>
         stderr (snd (getWebUntisTimetable e cfg opts w)) = stderr w @ [LogInvalidConfig]"
proof -
  have "invalid_config cfg"
    using assms
    by (auto simp: invalid_config_def isArray_def split: option.splits jsval.splits)
  then show ?thesis
    by (simp add: call_invalid)
qed

theorem C5_identity_validation_witness:
  "fst (getWebUntisTimetable (answering (json_response (JObj [(''payload'', JObj example_payload)])))
          (JObj [(''schoolName'', JStr []), (''formatName'', JStr ''Fmt''),
                 (''departmentIds'', JArr [])])
          no_options initial_world) = JNull \<and>
   sent (snd (getWebUntisTimetable
          (answering (json_response (JObj [(''payload'', JObj example_payload)])))
          (JObj [(''schoolName'', JStr []), (''formatName'', JStr ''Fmt''),
                 (''departmentIds'', JArr [])])
          no_options initial_world)) = [] \<and>
   stderr (snd (getWebUntisTimetable
          (answering (json_response (JObj [(''payload'', JObj example_payload)])))
          (JObj [(''schoolName'', JStr []), (''formatName'', JStr ''Fmt''),
                 (''departmentIds'', JArr [])])
          no_options initial_world)) = [LogInvalidConfig]"
  using C5_identity_validation
    [where cfg = "JObj [(''schoolName'', JStr []), (''formatName'', JStr ''Fmt''),
                        (''departmentIds'', JArr [])]"
       and e = "answering (json_response (JObj [(''payload'', JObj example_payload)]))"
       and opts = no_options and w = initial_world]
  by (simp add: initial_world_def)

text \<open>
  A \<open>departmentIds\<close> array that holds a string and \<^verbatim>\<open>null\<close> instead of integers: the request
  is sent and the payload returned.
\<close>

theorem C5_counterexample:
  "length (sent (snd (getWebUntisTimetable
          (answering (json_response (JObj [(''payload'', JObj example_payload)])))
          (JObj [(''schoolName'', JStr ''Test School''), (''formatName'', JStr ''Fmt''),
                 (''departmentIds'', JArr [JStr ''x'', JNull])])
          no_options initial_world))) = 1 \<and>
   fst (getWebUntisTimetable
          (answering (json_response (JObj [(''payload'', JObj example_payload)])))
          (JObj [(''schoolName'', JStr ''Test School''), (''formatName'', JStr ''Fmt''),
                 (''departmentIds'', JArr [JStr ''x'', JNull])])
          no_options initial_world) = JObj example_payload \<and>
   stderr (snd (getWebUntisTimetable
          (answering (json_response (JObj [(''payload'', JObj example_payload)])))
          (JObj [(''schoolName'', JStr ''Test School''), (''formatName'', JStr ''Fmt''),
                 (''departmentIds'', JArr [JStr ''x'', JNull])])
          no_options initial_world)) = []"
proof -
  have v: "\<not> invalid_config (JObj [(''schoolName'', JStr ''Test School''),
              (''formatName'', JStr ''Fmt''), (''departmentIds'', JArr [JStr ''x'', JNull])])"
    by (simp add: invalid_config_def isArray_def)
  have p: "process_payload None (JObj [(''payload'', JObj example_payload)])
             = Inr (JObj example_payload)"
    by (simp add: process_payload_def js_get_def filterRows_def example_payload_def)
  show ?thesis
    by (simp add: call_valid v try_block_ok json_response_def ok_200 handle_data_falsy_error p
        no_options_def initial_world_def)
qed




text \<open>
  C9.  A call leaves \<^verbatim>\<open>BASE_MONITOR_PAYLOAD_TEMPLATE\<close> as it was, and the body of the
  request it sends (if the configuration is valid) starts with the template's properties,
  in order and with their values, followed by \<open>schoolName\<close>, \<open>formatName\<close>,
  \<open>departmentIds\<close>, \<open>date\<close>, \<open>dateOffset\<close> and \<open>numberOfDays\<close>; reading any flag
  from the body gives the template's value.
\<close>

theorem C9_flag_block:
  assumes "template w = BASE_MONITOR_PAYLOAD_TEMPLATE"
  shows "template (snd (getWebUntisTimetable e cfg opts w)) = BASE_MONITOR_PAYLOAD_TEMPLATE \<and>
         (sent (snd (getWebUntisTimetable e cfg opts w)) = sent w \<or>
          (\<exists>req rest.
             sent (snd (getWebUntisTimetable e cfg opts w)) = sent w @ [req] \<and>
             req_body req = JObj (BASE_MONITOR_PAYLOAD_TEMPLATE @ rest) \<and>
             map fst rest = [''schoolName'', ''formatName'', ''departmentIds'', ''date'',
                             ''dateOffset'', ''numberOfDays''] \<and>
             (\<forall>(k, v) \<in> set BASE_MONITOR_PAYLOAD_TEMPLATE. js_prop (req_body req) k = v)))"
proof (cases "invalid_config cfg")
  case True
  then show ?thesis using call_world [of e cfg opts w] assms by simp
next
  case False
  let ?req = "build_request e w cfg opts"
  obtain rest where rest: "req_body ?req = JObj (BASE_MONITOR_PAYLOAD_TEMPLATE @ rest)"
    "map fst rest = [''schoolName'', ''formatName'', ''departmentIds'', ''date'',
                     ''dateOffset'', ''numberOfDays'']"
    by (simp add: build_request_def Let_def assms build_payload_template)
  have "\<forall>(k, v) \<in> set BASE_MONITOR_PAYLOAD_TEMPLATE. js_prop (req_body ?req) k = v"
    unfolding rest(1) using template_lookup by blast
  then show ?thesis
    using False call_world [of e cfg opts w] assms rest by auto
qed

theorem C9_flag_block_witness:
  "template initial_world = BASE_MONITOR_PAYLOAD_TEMPLATE \<and>
   template (snd (getWebUntisTimetable (answering (error_response 500 ''boom''))
               example_config no_options initial_world)) = BASE_MONITOR_PAYLOAD_TEMPLATE \<and>
   (\<exists>req. sent (snd (getWebUntisTimetable (answering (error_response 500 ''boom''))
               example_config no_options initial_world)) = [req] \<and>
          js_prop (req_body req) ''showAbsentElements'' = JArr [JNum 2] \<and>
          js_prop (req_body req) ''groupBy'' = JNum 1 \<and>
          js_prop (req_body req) ''showUnheraldedExams'' = JBool False)"
proof -
  let ?call = "getWebUntisTimetable (answering (error_response 500 ''boom''))
                 example_config no_options initial_world"
  have t: "template initial_world = BASE_MONITOR_PAYLOAD_TEMPLATE"
    by (simp add: initial_world_def)
  have s: "sent initial_world = []"
    by (simp add: initial_world_def)
  have n: "sent (snd ?call) \<noteq> []"
    using call_world [of "answering (error_response 500 ''boom'')" example_config no_options
        initial_world] valid_example_config
    by simp
  have m: "(''showAbsentElements'', JArr [JNum 2]) \<in> set BASE_MONITOR_PAYLOAD_TEMPLATE"
    "(''groupBy'', JNum 1) \<in> set BASE_MONITOR_PAYLOAD_TEMPLATE"
    "(''showUnheraldedExams'', JBool False) \<in> set BASE_MONITOR_PAYLOAD_TEMPLATE"
    by (simp_all add: BASE_MONITOR_PAYLOAD_TEMPLATE_def)
  show ?thesis
    using C9_flag_block [OF t, of "answering (error_response 500 ''boom'')" example_config
        no_options] t s n m
    by fastforce
qed

text \<open>
  The body of the request carries the identity's three fields, the encoded query date
  (the target date, or the current date when none is given, moved by the offset), the
  offset (0 when absent) and the number of days (1 when absent).
\<close>

theorem request_body_fields:
  "js_prop (req_body (build_request e w cfg opts)) ''schoolName'' = js_prop cfg ''schoolName'' \<and>
   js_prop (req_body (build_request e w cfg opts)) ''formatName'' = js_prop cfg ''formatName'' \<and>
   js_prop (req_body (build_request e w cfg opts)) ''departmentIds''
     = js_prop cfg ''departmentIds'' \<and>
   js_prop (req_body (build_request e w cfg opts)) ''date''
     = number_val (getUntisDate
         (queryDate (case opt_targetDate opts of None \<Rightarrow> now e | Some d \<Rightarrow> d)
                    (case opt_dateOffset opts of None \<Rightarrow> 0 | Some k \<Rightarrow> k))) \<and>
   js_prop (req_body (build_request e w cfg opts)) ''dateOffset''
     = JNum (case opt_dateOffset opts of None \<Rightarrow> 0 | Some k \<Rightarrow> k) \<and>
   js_prop (req_body (build_request e w cfg opts)) ''numberOfDays''
     = JNum (case opt_numberOfDays opts of None \<Rightarrow> 1 | Some n \<Rightarrow> n)"
  by (simp add: build_request_def build_payload_def Let_def update_conv')

lemma fields_2025_05_22:
  "YearFromTime 1747872000000 = 2025 \<and> MonthFromTime 1747872000000 = 4 \<and>
   DateFromTime 1747872000000 = 22"
  by (simp add: DateFromTime_def MonthFromTime_def DayWithinYear_def InLeapYear_def
      YearFromTime_def YearFromDay_def Day_def DayFromYear_def DaysInYear_def msPerDay_def
      Let_def)

lemma new_Date_2025_05_21: "new_Date 2025 4 21 = Some 1747785600000"
  by (simp add: new_Date_def TimeClip_def MakeDate_def MakeDay_def DayFromYear_def
      DaysBeforeMonth_def DaysInYear_def msPerDay_def Let_def)

theorem request_date_tomorrow:
  "js_prop (req_body (build_request (answering (json_response (JObj []))) initial_world
              example_config
              (no_options\<lparr>opt_dateOffset := Some 1, opt_filterGroups := Some [''11a'']\<rparr>)))
           ''date''
   = JNum 20250522"
proof -
  have "queryDate (Some 1747785600000) 1 = Some 1747872000000"
    by (simp add: queryDate_offset TimeClip_def msPerDay_def)
  then have "getUntisDate (queryDate (new_Date 2025 4 21) 1) = Some 20250522"
    by (simp add: new_Date_2025_05_21 getUntisDate_value fields_2025_05_22)
  then show ?thesis
    by (simp add: build_request_def build_payload_def Let_def update_conv' answering_def
        no_options_def number_val_def)
qed

subsection \<open>Rendering\<close>










lemma strip_Room_changed: "strip_tags ''Room <b>changed</b>'' = ''Room changed''"
  by simp



lemma bucket_of_update:
  "bucket_of (AList.update k v acc) k' = (if k' = k then v else bucket_of acc k')"
  by (simp add: bucket_of_def update_conv')

lemma reduce_rows_step:
  assumes "row \<noteq> JNull" "row \<noteq> JUndefined" "groupName_of row \<notin> set Object_prototype_keys"
  shows "reduce_rows acc (row # rest) =
           reduce_rows (AList.update (groupName_of row) (bucket_of acc (groupName_of row) @ [row]) acc)
                       rest"
  using assms by (simp add: bucket_of_def split: option.splits)

lemma reduce_rows_buckets:
  assumes "\<forall>r \<in> set rows. r \<noteq> JNull \<and> r \<noteq> JUndefined
             \<and> groupName_of r \<notin> set Object_prototype_keys"
  shows "\<exists>acc'. reduce_rows acc rows = Inr acc' \<and>
           (\<forall>k. bucket_of acc' k = bucket_of acc k @ filter (\<lambda>r. groupName_of r = k) rows) \<and>
           set (map fst acc') = set (map fst acc) \<union> groupName_of ` set rows \<and>
           (distinct (map fst acc) \<longrightarrow> distinct (map fst acc'))"
  using assms
proof (induction rows arbitrary: acc)
  case Nil
  show ?case by simp
next
  case (Cons row rest)
  let ?k = "groupName_of row"
  let ?acc1 = "AList.update ?k (bucket_of acc ?k @ [row]) acc"
  have step: "reduce_rows acc (row # rest) = reduce_rows ?acc1 rest"
    using Cons.prems by (intro reduce_rows_step) simp_all
  obtain acc' where r: "reduce_rows ?acc1 rest = Inr acc'"
    and b: "\<forall>k. bucket_of acc' k = bucket_of ?acc1 k @ filter (\<lambda>r. groupName_of r = k) rest"
    and s: "set (map fst acc') = set (map fst ?acc1) \<union> groupName_of ` set rest"
    and d: "distinct (map fst ?acc1) \<longrightarrow> distinct (map fst acc')"
    using Cons.IH [of ?acc1] Cons.prems by auto
  have "bucket_of acc' k = bucket_of acc k @ filter (\<lambda>r. groupName_of r = k) (row # rest)" for k
    using b by (simp add: bucket_of_update)
  moreover have "set (map fst acc') = set (map fst acc) \<union> groupName_of ` set (row # rest)"
    using s by (auto simp: update_keys)
  moreover have "distinct (map fst acc) \<longrightarrow> distinct (map fst acc')"
    using d by (simp add: distinct_update)
  ultimately show ?case
    using step r by simp
qed

text \<open>
  For rows whose group names are not names of properties of \<^verbatim>\<open>Object.prototype\<close>, the
  buckets come in strictly ascending order of their names, the names are the group names
  of the rows (the sentinel for a missing or empty group), and each bucket holds exactly
  the rows of its name, in their original order.
\<close>

theorem groupByClass_buckets:
  assumes "\<forall>r \<in> set rows. is_object r \<and> groupName_of r \<notin> set Object_prototype_keys"
  shows "\<exists>bs. groupByClass rows = Inr bs \<and>
           sorted_wrt (<) (map fst bs) \<and>
           set (map fst bs) = groupName_of ` set rows \<and>
           (\<forall>(k, b) \<in> set bs. b = filter (\<lambda>r. groupName_of r = k) rows) \<and>
           (\<forall>r \<in> set rows.
              (groupName_of r, filter (\<lambda>r'. groupName_of r' = groupName_of r) rows) \<in> set bs) \<and>
           (\<forall>r \<in> set rows. \<not> truthy (js_prop r ''group'') \<longrightarrow>
              groupName_of r = ''Unbekannte Gruppe'')"
proof -
  have "\<forall>r \<in> set rows. r \<noteq> JNull \<and> r \<noteq> JUndefined
          \<and> groupName_of r \<notin> set Object_prototype_keys"
    using assms by (auto simp: is_object_def)
  then obtain acc where r: "reduce_rows [] rows = Inr acc"
    and b: "\<forall>k. bucket_of acc k = filter (\<lambda>r. groupName_of r = k) rows"
    and s: "set (map fst acc) = groupName_of ` set rows"
    and d: "distinct (map fst acc)"
    using reduce_rows_buckets [of rows "[]"] by (auto simp: bucket_of_def)
  let ?bs = "map (\<lambda>k. (k, bucket_of acc k)) (sort (map fst acc))"
  have names: "map fst ?bs = sort (map fst acc)"
    by (simp add: comp_def)
  have "groupByClass rows = Inr ?bs"
    by (simp add: groupByClass_def r)
  moreover have "sorted_wrt (<) (map fst ?bs)"
    unfolding names using d by (simp add: strict_sorted_iff)
  moreover have "set (map fst ?bs) = groupName_of ` set rows"
    unfolding names using s by simp
  moreover have "\<forall>(k, b) \<in> set ?bs. b = filter (\<lambda>r. groupName_of r = k) rows"
    using b by auto
  moreover have "\<forall>r \<in> set rows.
      (groupName_of r, filter (\<lambda>r'. groupName_of r' = groupName_of r) rows) \<in> set ?bs"
  proof
    fix r assume "r \<in> set rows"
    then have "groupName_of r \<in> set (sort (map fst acc))"
      using s by auto
    then have "(groupName_of r, bucket_of acc (groupName_of r)) \<in> set ?bs"
      unfolding set_map by (rule imageI)
    then show "(groupName_of r, filter (\<lambda>r'. groupName_of r' = groupName_of r) rows) \<in> set ?bs"
      using b by simp
  qed
  moreover have "\<forall>r \<in> set rows. \<not> truthy (js_prop r ''group'') \<longrightarrow>
              groupName_of r = ''Unbekannte Gruppe''"
    by (simp add: groupName_of_def)
  ultimately show ?thesis
    by (intro exI [of _ ?bs] conjI)
qed

lemma groupName_sentinel:
  "\<not> truthy (js_prop row ''group'') \<Longrightarrow> groupName_of row = ''Unbekannte Gruppe''"
  by (simp add: groupName_of_def)

lemma groupName_string:
  "js_prop row ''group'' = JStr (c # cs) \<Longrightarrow> groupName_of row = c # cs"
  by (simp add: groupName_of_def)

theorem groupByClass_buckets_witness:
  "\<exists>bs. groupByClass example_rows = Inr bs \<and>
      map fst bs = [''11a'', ''12'', ''Unbekannte Gruppe''] \<and>
      (''11a'', [example_rows ! 0, example_rows ! 3]) \<in> set bs \<and>
      (''Unbekannte Gruppe'', [example_rows ! 2]) \<in> set bs"
proof -
  have "\<forall>r \<in> set example_rows. is_object r \<and> groupName_of r \<notin> set Object_prototype_keys"
    by (simp add: example_rows_def groupName_of_def Object_prototype_keys_def is_object_def)
  then have "\<exists>bs. groupByClass example_rows = Inr bs \<and>
           sorted_wrt (<) (map fst bs) \<and>
           set (map fst bs) = groupName_of ` set example_rows \<and>
           (\<forall>(k, b) \<in> set bs. b = filter (\<lambda>r. groupName_of r = k) example_rows) \<and>
           (\<forall>r \<in> set example_rows.
              (groupName_of r, filter (\<lambda>r'. groupName_of r' = groupName_of r) example_rows)
                \<in> set bs) \<and>
           (\<forall>r \<in> set example_rows. \<not> truthy (js_prop r ''group'') \<longrightarrow>
              groupName_of r = ''Unbekannte Gruppe'')"
    by (rule groupByClass_buckets)
  then obtain bs where b1: "groupByClass example_rows = Inr bs"
    and b5: "\<forall>r \<in> set example_rows.
              (groupName_of r, filter (\<lambda>r'. groupName_of r' = groupName_of r) example_rows)
                \<in> set bs"
    by (elim exE conjE)
  have "map fst (projr (groupByClass example_rows)) = [''11a'', ''12'', ''Unbekannte Gruppe'']"
    by (simp add: groupByClass_def example_rows_def groupName_of_def Object_prototype_keys_def
        less_eq_char_def less_char_def)
  then have b2: "map fst bs = [''11a'', ''12'', ''Unbekannte Gruppe'']"
    by (simp add: b1)
  have m: "example_rows ! 0 \<in> set example_rows" "example_rows ! 2 \<in> set example_rows"
    by (simp_all add: example_rows_def)
  have "(groupName_of (example_rows ! 0),
         filter (\<lambda>r'. groupName_of r' = groupName_of (example_rows ! 0)) example_rows) \<in> set bs"
    using b5 m(1) by (rule bspec)
  then have b3: "(''11a'', [example_rows ! 0, example_rows ! 3]) \<in> set bs"
    by (simp add: example_rows_def groupName_of_def)
  have "(groupName_of (example_rows ! 2),
         filter (\<lambda>r'. groupName_of r' = groupName_of (example_rows ! 2)) example_rows) \<in> set bs"
    using b5 m(2) by (rule bspec)
  then have b4: "(''Unbekannte Gruppe'', [example_rows ! 2]) \<in> set bs"
    by (simp add: example_rows_def groupName_of_def)
  show ?thesis
    using b1 b2 b3 b4 by (intro exI [of _ bs] conjI)
qed

text \<open>
  C8.  A group name that is also the name of a property of \<^verbatim>\<open>Object.prototype\<close>: the
  test \<^verbatim>\<open>!acc[groupName]\<close> finds the inherited property, no bucket is created, and
  \<^verbatim>\<open>acc[groupName].push(row)\<close> throws.  No row is grouped.
\<close>

theorem C8_prototype_group_name:
  "groupByClass [JObj [(''group'', JStr ''11a''), (''data'', JArr [JStr ''1''])],
                 JObj [(''group'', JStr ''constructor''), (''data'', JArr [JStr ''2''])]]
     = Inl TypeError"
  by (simp add: groupByClass_def groupName_of_def Object_prototype_keys_def)

end
